theory Spec2Isabelle
  imports
    Complex_Main
    "HOL-Library.List_Lexorder"
    "HOL-Library.Char_ord"
    "HOL-Library.Product_Lexorder"
begin

section \<open>Python values shared by both scripts\<close>

text \<open>
  Floating-point columns are modelled by the real numbers they denote; a missing value
  (pandas \<open>NaN\<close>, Python \<open>None\<close>) is \<open>None\<close>. Every ordered comparison with a
  missing value is false, as it is for \<open>NaN\<close>.
\<close>

definition nan_gt :: "real option \<Rightarrow> real \<Rightarrow> bool" where
  "nan_gt x c = (case x of None \<Rightarrow> False | Some v \<Rightarrow> c < v)"

definition nan_lt :: "real option \<Rightarrow> real \<Rightarrow> bool" where
  "nan_lt x c = (case x of None \<Rightarrow> False | Some v \<Rightarrow> v < c)"

text \<open>\<open>round(x)\<close>: to the nearest integer, a tie going to the even neighbour.\<close>

definition py_round :: "real \<Rightarrow> int" where
  "py_round x =
     (let f = \<lfloor>x\<rfloor>; d = x - of_int f
      in if d < 1 / 2 then f else if 1 / 2 < d then f + 1 else if even f then f else f + 1)"

text \<open>\<open>round(x, n)\<close> on a float that may be \<open>NaN\<close>.\<close>

definition py_round_nd :: "nat \<Rightarrow> real option \<Rightarrow> real option" where
  "py_round_nd n x = map_option (\<lambda>v. of_int (py_round (v * 10 ^ n)) / 10 ^ n) x"

text \<open>\<open>str(n)\<close> for an integer: its decimal digits.\<close>

definition digit_char :: "nat \<Rightarrow> char" where
  "digit_char d = ''0123456789'' ! d"

fun str_nat :: "nat \<Rightarrow> string" where
  "str_nat n = (if n < 10 then [digit_char n] else str_nat (n div 10) @ [digit_char (n mod 10)])"

declare str_nat.simps [simp del]

definition py_str :: "int \<Rightarrow> string" where
  "py_str i = (if i < 0 then CHR ''-'' # str_nat (nat (- i)) else str_nat (nat i))"

section \<open>process_near_space.py\<close>

text \<open>
  An exception is a value: a function that can raise returns \<open>Inl\<close> of the error.
  \<open>NotReal\<close> stands for a float power that Python evaluates to a complex number.
\<close>

datatype py_error = ValueError | KeyError | ZeroDivisionError | NotReal

definition bind_err :: "py_error + 'a \<Rightarrow> ('a \<Rightarrow> py_error + 'b) \<Rightarrow> py_error + 'b" where
  "bind_err m f = (case m of Inl e \<Rightarrow> Inl e | Inr v \<Rightarrow> f v)"

subsection \<open>Fixed-width fields\<close>

text \<open>
  Lines are ASCII strings. \<open>s[i:j]\<close> never fails: it is cut at the end of the string.
  \<open>strip\<close> removes the white space at both ends.
\<close>

definition slice :: "nat \<Rightarrow> nat \<Rightarrow> string \<Rightarrow> string" where
  "slice i j s = take (j - i) (drop i s)"

definition is_space :: "char \<Rightarrow> bool" where
  "is_space c = ((of_char c :: nat) \<in> {9, 10, 11, 12, 13, 28, 29, 30, 31, 32})"

definition strip :: "string \<Rightarrow> string" where
  "strip s = rev (dropWhile is_space (rev (dropWhile is_space s)))"

definition startswith :: "string \<Rightarrow> string \<Rightarrow> bool" where
  "startswith s p = (take (length p) s = p)"

definition is_digit :: "char \<Rightarrow> bool" where
  "is_digit c = (48 \<le> (of_char c :: nat) \<and> (of_char c :: nat) \<le> 57)"

definition digit_val :: "char \<Rightarrow> int" where
  "digit_val c = int (of_char c) - 48"

text \<open>
  The text \<open>int\<close> accepts, after an optional sign: digits, with single underscores
  allowed between two digits.
\<close>

fun digits_ok :: "string \<Rightarrow> bool" where
  "digits_ok [] = False"
| "digits_ok [c] = is_digit c"
| "digits_ok (c # d # cs) =
     (is_digit c \<and> (if d = CHR ''_'' then digits_ok cs else digits_ok (d # cs)))"

definition digits_value :: "string \<Rightarrow> int" where
  "digits_value s = foldl (\<lambda>a c. 10 * a + digit_val c) 0 (filter is_digit s)"

definition py_int :: "string \<Rightarrow> py_error + int" where
  "py_int s =
     (case s of
        [] \<Rightarrow> Inl ValueError
      | c # cs \<Rightarrow>
          if c = CHR ''-'' then (if digits_ok cs then Inr (- digits_value cs) else Inl ValueError)
          else if c = CHR ''+'' then (if digits_ok cs then Inr (digits_value cs) else Inl ValueError)
          else if digits_ok s then Inr (digits_value s) else Inl ValueError)"

definition parse_int :: "string \<Rightarrow> py_error + int option" where
  "parse_int segment =
     (let segment = strip segment
      in if segment = [] \<or> segment = ''-9999'' \<or> segment = ''-8888'' then Inr None
         else bind_err (py_int segment) (\<lambda>v. Inr (Some v)))"

definition parse_float :: "string \<Rightarrow> real \<Rightarrow> py_error + real option" where
  "parse_float segment scale =
     bind_err (parse_int segment)
       (\<lambda>v. case v of None \<Rightarrow> Inr None | Some n \<Rightarrow> Inr (Some (of_int n / scale)))"

subsection \<open>Potential temperature\<close>

text \<open>
  \<open>1000.0 / pressure_hpa\<close> raises at zero, and a negative base under a fractional
  exponent is not a float; the parser calls the function at pressures that round to 925,
  850 or 700 only.
\<close>

definition potential_temperature :: "real \<Rightarrow> real \<Rightarrow> py_error + real" where
  "potential_temperature temp_c pressure_hpa =
     (let temp_k = temp_c + 273.15;
          exponent = 0.2854
      in if pressure_hpa = 0 then Inl ZeroDivisionError
         else if pressure_hpa < 0 then Inl NotReal
         else Inr (temp_k * (1000 / pressure_hpa) powr exponent))"

subsection \<open>Timestamps\<close>

record timestamp =
  ts_year :: int
  ts_month :: int
  ts_day :: int
  ts_hour :: int

definition is_leap :: "int \<Rightarrow> bool" where
  "is_leap y = (y mod 4 = 0 \<and> (y mod 100 \<noteq> 0 \<or> y mod 400 = 0))"

definition days_in_month :: "int \<Rightarrow> int \<Rightarrow> int" where
  "days_in_month y m =
     (if m = 2 then (if is_leap y then 29 else 28)
      else if m = 4 \<or> m = 6 \<or> m = 9 \<or> m = 11 then 30 else 31)"

text \<open>
  \<open>pd.Timestamp(year=, month=, day=, hour=)\<close> builds a \<open>datetime\<close> first, which
  raises \<open>ValueError\<close> unless the year is in 1..9999, the month in 1..12, the day
  within the month and the hour in 0..23. (A pandas limited to nanosecond resolution
  rejects the years before 1677 and after 2262 as well, also with a \<open>ValueError\<close>.)
\<close>

definition Timestamp :: "int \<Rightarrow> int \<Rightarrow> int \<Rightarrow> int \<Rightarrow> py_error + timestamp" where
  "Timestamp y m d h =
     (if 1 \<le> y \<and> y \<le> 9999 \<and> 1 \<le> m \<and> m \<le> 12 \<and> 1 \<le> d \<and> d \<le> days_in_month y m \<and>
         0 \<le> h \<and> h \<le> 23
      then Inr \<lparr>ts_year = y, ts_month = m, ts_day = d, ts_hour = h\<rparr>
      else Inl ValueError)"

subsection \<open>parse_igra_soundings\<close>

record header =
  hdr_year :: "int option"
  hdr_month :: "int option"
  hdr_day :: "int option"
  hdr_hour :: "int option"
  num_levels :: int

text \<open>The five header fields; \<open>_parse_int(header[32:36]) or 0\<close> for the level count.\<close>

definition parse_header :: "string \<Rightarrow> py_error + header" where
  "parse_header hd_line =
     bind_err (parse_int (slice 13 17 hd_line)) (\<lambda>year.
     bind_err (parse_int (slice 18 20 hd_line)) (\<lambda>month.
     bind_err (parse_int (slice 21 23 hd_line)) (\<lambda>day.
     bind_err (parse_int (slice 24 26 hd_line)) (\<lambda>hour.
     bind_err (parse_int (slice 32 36 hd_line)) (\<lambda>n.
       Inr \<lparr>hdr_year = year, hdr_month = month, hdr_day = day, hdr_hour = hour,
            num_levels = (case n of None \<Rightarrow> 0 | Some k \<Rightarrow> k)\<rparr>)))))"

record level =
  pressure_hpa :: real
  gph :: "real option"
  temp_c :: "real option"
  rh :: "real option"

text \<open>
  One level line: the key and the level to store, or nothing when the pressure or the
  level type is missing.
\<close>

definition parse_level :: "string \<Rightarrow> py_error + (int \<times> level) option" where
  "parse_level data_line =
     bind_err (parse_int (slice 0 1 data_line)) (\<lambda>lvl_type_major.
     bind_err (parse_int (slice 9 15 data_line)) (\<lambda>pressure.
     bind_err (parse_int (slice 16 21 data_line)) (\<lambda>gph_v.
     bind_err (parse_float (slice 22 27 data_line) 10) (\<lambda>temp_c_v.
     bind_err (parse_float (slice 28 33 data_line) 10) (\<lambda>rh_v.
       case pressure of
         None \<Rightarrow> Inr None
       | Some p \<Rightarrow>
           if lvl_type_major = None then Inr None
           else
             (let p_hpa = of_int p / 100;
                  pressure_key = py_round p_hpa
              in Inr (Some (pressure_key,
                   \<lparr>pressure_hpa = p_hpa, gph = map_option of_int gph_v,
                    temp_c = temp_c_v, rh = rh_v\<rparr>))))))))"

text \<open>
  The level loop \<open>for _ in range(num_levels)\<close>: it reads one line per round, stops
  early at the end of the input (\<open>readline\<close> returns the empty string there), and
  returns the level store with the lines not yet read.
\<close>

fun read_levels ::
  "nat \<Rightarrow> string list \<Rightarrow> (int \<rightharpoonup> level) \<Rightarrow> py_error + ((int \<rightharpoonup> level) \<times> string list)" where
  "read_levels 0 lines level_store = Inr (level_store, lines)"
| "read_levels (Suc n) [] level_store = Inr (level_store, [])"
| "read_levels (Suc n) (data_line # rest) level_store =
     (if data_line = [] then Inr (level_store, rest)
      else case parse_level data_line of
             Inl e \<Rightarrow> Inl e
           | Inr None \<Rightarrow> read_levels n rest level_store
           | Inr (Some kl) \<Rightarrow> read_levels n rest (level_store(fst kl \<mapsto> snd kl)))"

text \<open>The loop of a malformed header: \<open>num_levels\<close> calls of \<open>readline\<close>.\<close>

fun skip_lines :: "nat \<Rightarrow> string list \<Rightarrow> string list" where
  "skip_lines 0 lines = lines"
| "skip_lines (Suc n) [] = skip_lines n []"
| "skip_lines (Suc n) (data_line # rest) = skip_lines n rest"

record sounding =
  datetime :: timestamp
  theta_gradient_700_925_K :: "real option"
  theta_850_K :: "real option"
  relative_humidity_850_pct :: "real option"
  height_925_m :: "real option"
  height_diff_700_925_m :: "real option"

text \<open>The part of the loop body after the levels are read: the record, if one is made.\<close>

definition make_record :: "timestamp \<Rightarrow> (int \<rightharpoonup> level) \<Rightarrow> py_error + sounding option" where
  "make_record sounding_ts level_store =
     (case (level_store 925, level_store 700) of
        (Some lvl925, Some lvl700) \<Rightarrow>
          (case (temp_c lvl925, temp_c lvl700) of
             (Some t925, Some t700) \<Rightarrow>
               bind_err (potential_temperature t925 (pressure_hpa lvl925)) (\<lambda>theta925.
               bind_err (potential_temperature t700 (pressure_hpa lvl700)) (\<lambda>theta700.
               bind_err
                 (case level_store 850 of
                    None \<Rightarrow> Inr None
                  | Some lvl850 \<Rightarrow>
                      (case temp_c lvl850 of
                         None \<Rightarrow> Inr None
                       | Some t850 \<Rightarrow>
                           bind_err (potential_temperature t850 (pressure_hpa lvl850))
                             (\<lambda>th. Inr (Some th)))) (\<lambda>theta850.
                 Inr (Some
                   \<lparr>datetime = sounding_ts,
                    theta_gradient_700_925_K = Some (theta700 - theta925),
                    theta_850_K = theta850,
                    relative_humidity_850_pct =
                      (case level_store 850 of None \<Rightarrow> None | Some lvl850 \<Rightarrow> rh lvl850),
                    height_925_m = gph lvl925,
                    height_diff_700_925_m =
                      (case (gph lvl700, gph lvl925) of
                         (Some g700, Some g925) \<Rightarrow> Some (g700 - g925)
                       | _ \<Rightarrow> None)\<rparr>))))
           | _ \<Rightarrow> Inr None)
      | _ \<Rightarrow> Inr None)"

text \<open>\<open>int(hour) if hour is not None and hour <= 23 else 0\<close>\<close>

definition hour_or_zero :: "int option \<Rightarrow> int" where
  "hour_or_zero hour = (case hour of None \<Rightarrow> 0 | Some v \<Rightarrow> if v \<le> 23 then v else 0)"

text \<open>
  One round of the main loop on a header line: the record of the block, if any, and the
  lines left to read.
\<close>

definition read_block :: "string \<Rightarrow> string list \<Rightarrow> py_error + (sounding option \<times> string list)" where
  "read_block hd_line rest =
     bind_err (parse_header hd_line) (\<lambda>h.
       case (hdr_year h, hdr_month h, hdr_day h) of
         (Some year, Some month, Some day) \<Rightarrow>
           if year = 0 \<or> month = 0 \<or> day = 0
           then Inr (None, skip_lines (nat (num_levels h)) rest)
           else
             bind_err (Timestamp year month day (hour_or_zero (hdr_hour h))) (\<lambda>sounding_ts.
             bind_err (read_levels (nat (num_levels h)) rest Map.empty) (\<lambda>(level_store, rest').
             bind_err (make_record sounding_ts level_store) (\<lambda>record. Inr (record, rest'))))
       | _ \<Rightarrow> Inr (None, skip_lines (nat (num_levels h)) rest))"

lemma length_skip_lines: "length (skip_lines n lines) \<le> length lines"
  by (induction n lines rule: skip_lines.induct) auto

lemma length_read_levels:
  "read_levels n lines st = Inr (st', lines') \<Longrightarrow> length lines' \<le> length lines"
proof (induction n lines st rule: read_levels.induct)
  case (3 n data_line rest level_store)
  then show ?case
    by (fastforce split: if_splits sum.splits option.splits)
qed auto

lemma length_read_block:
  "read_block hd_line rest = Inr (rc, rest') \<Longrightarrow> length rest' \<le> length rest"
  by (auto simp: read_block_def bind_err_def length_skip_lines
      split: sum.splits option.splits if_splits prod.splits
      dest: length_read_levels)

text \<open>
  The main loop. The input is the list of the lines of the file; at its end
  \<open>readline\<close> returns the empty string and the loop stops.
\<close>

function parse_loop :: "string list \<Rightarrow> sounding list \<Rightarrow> py_error + sounding list" where
  "parse_loop [] records = Inr records"
| "parse_loop (hd_line # rest) records =
     (if hd_line = [] then Inr records
      else if \<not> startswith hd_line ''#'' then parse_loop rest records
      else case read_block hd_line rest of
             Inl e \<Rightarrow> Inl e
           | Inr (None, rest') \<Rightarrow> parse_loop rest' records
           | Inr (Some rc, rest') \<Rightarrow> parse_loop rest' (records @ [rc]))"
  by pat_completeness auto
termination
  by (relation "measure (\<lambda>(lines, records). length lines)")
     (auto dest: length_read_block simp: less_Suc_eq_le)

text \<open>
  \<open>DataFrame.from_records\<close> of no record has no column, and \<open>dropna\<close> on the
  gradient column then raises \<open>KeyError\<close>.
\<close>

definition parse_igra_soundings :: "string list \<Rightarrow> py_error + sounding list" where
  "parse_igra_soundings lines =
     bind_err (parse_loop lines []) (\<lambda>records.
       if records = [] then Inl KeyError
       else Inr (filter (\<lambda>rc. theta_gradient_700_925_K rc \<noteq> None) records))"

subsection \<open>Monthly and seasonal metrics\<close>

text \<open>
  A month (\<open>Period\<close> of frequency M) is the pair of its year and month, ordered
  chronologically; \<open>str\<close> of it is the year, a dash and the two-digit month.
\<close>

type_synonym period = "int \<times> int"

definition to_period :: "timestamp \<Rightarrow> period" where
  "to_period ts = (ts_year ts, ts_month ts)"

definition zfill :: "nat \<Rightarrow> string \<Rightarrow> string" where
  "zfill w s = replicate (w - length s) (CHR ''0'') @ s"

definition period_str :: "period \<Rightarrow> string" where
  "period_str p = py_str (fst p) @ ''-'' @ zfill 2 (py_str (snd p))"

text \<open>The aggregates of a column skip its missing values.\<close>

definition present :: "real option list \<Rightarrow> real list" where
  "present col = List.map_filter id col"

definition median :: "real option list \<Rightarrow> real option" where
  "median col =
     (let s = sort (present col); n = length s
      in if n = 0 then None
         else if odd n then Some (s ! (n div 2))
         else Some ((s ! (n div 2 - 1) + s ! (n div 2)) / 2))"

text \<open>\<open>Series.quantile(q)\<close> for \<open>0 \<le> q \<le> 1\<close>, interpolating linearly.\<close>

definition quantile :: "real \<Rightarrow> real option list \<Rightarrow> real option" where
  "quantile q col =
     (let s = sort (present col); n = length s
      in if n = 0 then None
         else
           (let pos = real (n - 1) * q;
                lo = nat \<lfloor>pos\<rfloor>;
                hi = min (lo + 1) (n - 1)
            in Some (s ! lo + (s ! hi - s ! lo) * (pos - real lo))))"

record metrics =
  m_theta_gradient_med :: "real option"
  m_theta_gradient_iqr :: "real option"
  m_rh_850_med :: "real option"
  m_height_diff_med :: "real option"
  m_soundings :: nat

definition aggregate :: "sounding list \<Rightarrow> metrics" where
  "aggregate grp =
     (let grad = map theta_gradient_700_925_K grp
      in \<lparr>m_theta_gradient_med = median grad,
          m_theta_gradient_iqr =
            (case (quantile 0.75 grad, quantile 0.25 grad) of
               (Some q3, Some q1) \<Rightarrow> Some (q3 - q1)
             | _ \<Rightarrow> None),
          m_rh_850_med = median (map relative_humidity_850_pct grp),
          m_height_diff_med = median (map height_diff_700_925_m grp),
          m_soundings = length (present grad)\<rparr>)"

text \<open>\<open>df.groupby(key)\<close>: one group for every key that occurs, the keys sorted.\<close>

definition groupby :: "('a \<Rightarrow> 'k::linorder) \<Rightarrow> 'a list \<Rightarrow> ('k \<times> 'a list) list" where
  "groupby key df = map (\<lambda>k. (k, filter (\<lambda>rc. key rc = k) df)) (sort (remdups (map key df)))"

text \<open>A monthly row is its month, as a string, with the metrics of the month.\<close>

definition compute_monthly_metrics :: "sounding list \<Rightarrow> (string \<times> metrics) list" where
  "compute_monthly_metrics df =
     map (\<lambda>kg. (period_str (fst kg), aggregate (snd kg)))
       (groupby (\<lambda>rc. to_period (datetime rc)) df)"



subsection \<open>The merged monthly table of main\<close>

text \<open>
  A table row is its month key with its other columns. \<open>left.merge(right, on="month",
  how="inner")\<close> pairs every left row, in the order of the left table, with the right
  rows of the same key.
\<close>

definition merge_inner :: "('k \<times> 'a) list \<Rightarrow> ('k \<times> 'b) list \<Rightarrow> ('k \<times> 'a \<times> 'b) list" where
  "merge_inner left right =
     concat (map (\<lambda>l. map (\<lambda>rt. (fst l, snd l, snd rt)) (filter (\<lambda>rt. fst rt = fst l) right)) left)"

text \<open>
  The two aerosol tables come from \<open>read_aeronet_monthly\<close> and
  \<open>read_sda_monthly\<close> with their months as periods; they are joined, sorted by month
  and their months turned into strings.
\<close>

definition aerosol_monthly :: "(period \<times> 'a) list \<Rightarrow> (period \<times> 'b) list \<Rightarrow> (string \<times> 'a \<times> 'b) list" where
  "aerosol_monthly aod_monthly sda_monthly =
     map (\<lambda>row. (period_str (fst row), snd row)) (sort_key fst (merge_inner aod_monthly sda_monthly))"

definition merged ::
  "(string \<times> metrics) list \<Rightarrow> (string \<times> 'a \<times> 'b) list \<Rightarrow> (string \<times> metrics \<times> 'a \<times> 'b) list" where
  "merged igra_monthly aerosol = filter (\<lambda>row. ''2010-01'' \<le> fst row) (merge_inner igra_monthly aerosol)"

text \<open>
  A month with a four-digit year. The months that \<open>pd.to_datetime\<close> reads from the
  aerosol files are of this kind: its nanosecond timestamps span the years 1677 to 2262.
\<close>

definition four_digit_month :: "period \<Rightarrow> bool" where
  "four_digit_month p = (1000 \<le> fst p \<and> fst p \<le> 9999 \<and> 1 \<le> snd p \<and> snd p \<le> 12)"

text \<open>\<open>main\<close>, from the lines of the sounding file and the two aerosol tables to the merged table.\<close>

definition main_merged ::
  "string list \<Rightarrow> (period \<times> 'a) list \<Rightarrow> (period \<times> 'b) list \<Rightarrow>
   py_error + (string \<times> metrics \<times> 'a \<times> 'b) list" where
  "main_merged lines aod_monthly sda_monthly =
     bind_err (parse_igra_soundings lines) (\<lambda>igra_df.
       Inr (merged (compute_monthly_metrics igra_df) (aerosol_monthly aod_monthly sda_monthly)))"

section \<open>atmospheric_analysis.py\<close>

text \<open>
  A row of the merged monthly table as the analysis reads it: \<open>month\<close> is the parsed
  date (year and month), the other columns are floats.
\<close>

record combo_row =
  month :: "int \<times> int"
  theta_gradient_med :: "real option"
  rh_850_med :: "real option"
  soundings :: "real option"
  Total_AOD_500nm :: "real option"
  Fine_Mode_AOD_500nm :: "real option"
  Coarse_Mode_AOD_500nm :: "real option"
  FineModeFraction_500nm :: "real option"

subsection \<open>calculate_correlations\<close>

record correlation =
  r :: "real option"
  p_value :: "real option"
  significance :: string

text \<open>\<open>combo[[six columns]].dropna()\<close>: a row stays when none of the six is missing.\<close>

definition clean_combo :: "combo_row list \<Rightarrow> combo_row list" where
  "clean_combo combo =
     filter (\<lambda>row. theta_gradient_med row \<noteq> None \<and> Fine_Mode_AOD_500nm row \<noteq> None \<and>
                    Coarse_Mode_AOD_500nm row \<noteq> None \<and> Total_AOD_500nm row \<noteq> None \<and>
                    FineModeFraction_500nm row \<noteq> None \<and> rh_850_med row \<noteq> None) combo"

definition column :: "(combo_row \<Rightarrow> real option) \<Rightarrow> combo_row list \<Rightarrow> real list" where
  "column f rows = List.map_filter f rows"

text \<open>
  \<open>scipy.stats.pearsonr\<close> is a library function and a parameter here: it takes the two
  columns and returns the coefficient and the p-value (either may be \<open>NaN\<close>).
\<close>

type_synonym pearsonr = "real list \<Rightarrow> real list \<Rightarrow> real option \<times> real option"

definition corr_entry :: "pearsonr \<Rightarrow> real list \<Rightarrow> real list \<Rightarrow> correlation" where
  "corr_entry pearsonr xs ys =
     (case pearsonr xs ys of (r_v, p_v) \<Rightarrow>
        \<lparr>r = py_round_nd 3 r_v, p_value = py_round_nd 4 p_v,
         significance = (if nan_lt p_v 0.05 then ''significant'' else ''not significant'')\<rparr>)"

text \<open>The result dictionary, in insertion order.\<close>

definition calculate_correlations :: "pearsonr \<Rightarrow> combo_row list \<Rightarrow> (string \<times> correlation) list" where
  "calculate_correlations pearsonr combo =
     (let clean = clean_combo combo
      in if 2 < length clean then
           [(''stability_vs_fine_aod'',
               corr_entry pearsonr (column theta_gradient_med clean) (column Fine_Mode_AOD_500nm clean)),
            (''stability_vs_coarse_aod'',
               corr_entry pearsonr (column theta_gradient_med clean) (column Coarse_Mode_AOD_500nm clean)),
            (''stability_vs_fine_fraction'',
               corr_entry pearsonr (column theta_gradient_med clean) (column FineModeFraction_500nm clean)),
            (''humidity_vs_fine_aod'',
               corr_entry pearsonr (column rh_850_med clean) (column Fine_Mode_AOD_500nm clean))]
         else [])"

text \<open>
  The paired observations of two columns: the rows in which both are present. This is
  the notion the specification uses; the code never computes it.
\<close>

definition paired_observations ::
  "(combo_row \<Rightarrow> real option) \<Rightarrow> (combo_row \<Rightarrow> real option) \<Rightarrow> combo_row list \<Rightarrow> combo_row list" where
  "paired_observations f g combo = filter (\<lambda>row. f row \<noteq> None \<and> g row \<noteq> None) combo"

subsection \<open>identify_high_pollution_episodes\<close>

definition STRONG_INVERSION_THRESHOLD :: real where
  "STRONG_INVERSION_THRESHOLD = 12"

definition HIGH_FINE_AOD_THRESHOLD :: real where
  "HIGH_FINE_AOD_THRESHOLD = 0.3"

definition HIGH_RH_THRESHOLD :: real where
  "HIGH_RH_THRESHOLD = 70"

definition high_pollution_episode :: "combo_row \<Rightarrow> bool" where
  "high_pollution_episode row =
     (nan_gt (theta_gradient_med row) STRONG_INVERSION_THRESHOLD \<and>
      nan_gt (Fine_Mode_AOD_500nm row) HIGH_FINE_AOD_THRESHOLD)"

definition stagnant_conditions :: "combo_row \<Rightarrow> bool" where
  "stagnant_conditions row =
     (nan_gt (theta_gradient_med row) STRONG_INVERSION_THRESHOLD \<and>
      nan_gt (rh_850_med row) HIGH_RH_THRESHOLD)"

text \<open>\<open>strftime("%Y-%b")\<close> of a month, in the C locale.\<close>

definition month_abbr :: "int \<Rightarrow> string" where
  "month_abbr m =
     [''Jan'', ''Feb'', ''Mar'', ''Apr'', ''May'', ''Jun'',
      ''Jul'', ''Aug'', ''Sep'', ''Oct'', ''Nov'', ''Dec''] ! nat ((m - 1) mod 12)"

definition strftime_Y_b :: "int \<times> int \<Rightarrow> string" where
  "strftime_Y_b ym = py_str (fst ym) @ ''-'' @ month_abbr (snd ym)"

record episode =
  month_name :: string
  ep_theta_gradient_med :: "real option"
  ep_Fine_Mode_AOD_500nm :: "real option"
  ep_Coarse_Mode_AOD_500nm :: "real option"
  ep_rh_850_med :: "real option"
  ep_stagnant_conditions :: bool

definition episode_of :: "combo_row \<Rightarrow> episode" where
  "episode_of row =
     \<lparr>month_name = strftime_Y_b (month row),
      ep_theta_gradient_med = theta_gradient_med row,
      ep_Fine_Mode_AOD_500nm = Fine_Mode_AOD_500nm row,
      ep_Coarse_Mode_AOD_500nm = Coarse_Mode_AOD_500nm row,
      ep_rh_850_med = rh_850_med row,
      ep_stagnant_conditions = stagnant_conditions row\<rparr>"

definition identify_high_pollution_episodes :: "combo_row list \<Rightarrow> episode list" where
  "identify_high_pollution_episodes combo = map episode_of (filter high_pollution_episode combo)"

subsection \<open>calculate_mixing_metrics: the dispersion class\<close>

definition classify_dispersion :: "combo_row \<Rightarrow> string" where
  "classify_dispersion row =
     (if nan_lt (theta_gradient_med row) 8 then ''Excellent''
      else if nan_lt (theta_gradient_med row) 12 then ''Good''
      else if nan_lt (theta_gradient_med row) 15 then ''Moderate''
      else ''Poor'')"

text \<open>The column \<open>dispersion_potential\<close>: the class of every row.\<close>

definition dispersion_potential :: "combo_row list \<Rightarrow> string list" where
  "dispersion_potential combo = map classify_dispersion combo"

subsection \<open>aerosol_source_attribution\<close>

definition attribute_source :: "combo_row \<Rightarrow> string" where
  "attribute_source row =
     (let fine_frac = FineModeFraction_500nm row
      in if fine_frac = None then ''Unknown''
         else if nan_gt fine_frac 0.6 then ''Combustion-dominated (urban/biomass)''
         else if nan_gt fine_frac 0.4 then ''Mixed (combustion + dust)''
         else ''Dust-dominated (natural)'')"

definition season_of_month :: "int \<Rightarrow> string option" where
  "season_of_month m =
     (if m = 12 \<or> m = 1 \<or> m = 2 then Some ''DJF''
      else if m = 3 \<or> m = 4 \<or> m = 5 then Some ''MAM''
      else if m = 6 \<or> m = 7 \<or> m = 8 then Some ''JJA''
      else if m = 9 \<or> m = 10 \<or> m = 11 then Some ''SON''
      else None)"

text \<open>
  \<open>pd.crosstab(season, likely_source)\<close>: for every season and every label that occur,
  both in sorted order, the number of rows carrying the two.
\<close>

definition aerosol_source_attribution :: "combo_row list \<Rightarrow> (string \<times> (string \<times> nat) list) list" where
  "aerosol_source_attribution combo =
     (let labelled = List.map_filter
            (\<lambda>row. map_option (\<lambda>s. (s, attribute_source row)) (season_of_month (snd (month row)))) combo;
          seasons = sort (remdups (map fst labelled));
          sources = sort (remdups (map snd labelled))
      in map (\<lambda>s. (s, map (\<lambda>l. (l, count_list labelled (s, l))) sources)) seasons)"

section \<open>Properties of process_near_space.py\<close>

subsection \<open>Potential temperature\<close>

text \<open>
  C9. At a positive pressure \<open>P\<close> (hPa) and a temperature \<open>T\<close> (degrees C) the
  potential temperature is \<open>(T + 273.15) * (1000 / P)\<close> to the power 0.2854, and at
  1000 hPa it is exactly \<open>T + 273.15\<close>.
\<close>

theorem potential_temperature_formula:
  "(0 < P \<longrightarrow> potential_temperature T P = Inr ((T + 273.15) * (1000 / P) powr 0.2854)) \<and>
   potential_temperature T 1000 = Inr (T + 273.15)"
  by (simp add: potential_temperature_def Let_def)

text \<open>10 degrees C at 925 hPa and at the reference pressure.\<close>

theorem potential_temperature_formula_witness:
  "potential_temperature 10 925 = Inr (283.15 * (1000 / 925) powr 0.2854) \<and>
   potential_temperature 10 1000 = Inr 283.15"
  using potential_temperature_formula [of 925 10] potential_temperature_formula [of 1000 10]
  by simp

subsection \<open>Aggregation keys\<close>









subsection \<open>The hour field\<close>

text \<open>
  An absent hour and an hour above 23 become 0 and an hour from 0 to 23 is kept, so on a
  valid date the timestamp is built whenever the hour is not negative.
\<close>

lemma hour_or_zero_range:
  "hour = None \<or> (\<exists>v. hour = Some v \<and> 0 \<le> v) \<Longrightarrow> 0 \<le> hour_or_zero hour \<and> hour_or_zero hour \<le> 23"
  by (auto simp: hour_or_zero_def)

lemma hour_or_zero_zero:
  "hour = None \<or> (\<exists>v. hour = Some v \<and> 23 < v) \<Longrightarrow> hour_or_zero hour = 0"
  by (auto simp: hour_or_zero_def)

lemma Timestamp_nonnegative_hour:
  assumes "Timestamp y m d 0 = Inr t0"
      and "hour = None \<or> (\<exists>v. hour = Some v \<and> 0 \<le> v)"
  shows "Timestamp y m d (hour_or_zero hour) =
           Inr \<lparr>ts_year = y, ts_month = m, ts_day = d, ts_hour = hour_or_zero hour\<rparr>"
  using assms(1) hour_or_zero_range [OF assms(2)]
  by (simp add: Timestamp_def split: if_splits)

text \<open>
  A header of 15 January 2020 whose hour field reads \<open>-5\<close>, followed by three level
  lines.
\<close>

definition c7_header :: string where
  "c7_header = ''#USM00072403 2020 01 15 -5 1105    3'' @ [CHR 0x0A]"

definition c7_levels :: "string list" where
  "c7_levels =
     [''10 -9999  92500   762B  100B  650'' @ [CHR 0x0A],
      ''10 -9999  85000  1457B   50B-9999'' @ [CHR 0x0A],
      ''20 -9999  70000  3012B  -50B  300'' @ [CHR 0x0A]]"

text \<open>
  C7 fails on the code. The date of the header is valid and hour 0 would give a
  timestamp, but the hour \<open>-5\<close> passes the test \<open>hour <= 23\<close> unchanged, the
  timestamp constructor raises \<open>ValueError\<close> and the whole parse ends with it.
\<close>

theorem negative_hour_raises:
  "parse_header c7_header =
     Inr \<lparr>hdr_year = Some 2020, hdr_month = Some 1, hdr_day = Some 15, hdr_hour = Some (- 5),
          num_levels = 3\<rparr> \<and>
   Timestamp 2020 1 15 0 = Inr \<lparr>ts_year = 2020, ts_month = 1, ts_day = 15, ts_hour = 0\<rparr> \<and>
   read_block c7_header c7_levels = Inl ValueError \<and>
   parse_igra_soundings (c7_header # c7_levels) = Inl ValueError"
  by code_simp

subsection \<open>Malformed headers\<close>

lemma skip_lines_drop: "skip_lines n lines = drop n lines"
  by (induction n lines rule: skip_lines.induct) simp_all

text \<open>
  A field parses unless \<open>int\<close> raises on it: its stripped text is empty, a sentinel
  code, or an integer literal (an optional sign, then digits).
\<close>

definition int_text :: "string \<Rightarrow> bool" where
  "int_text s =
     (case s of
        [] \<Rightarrow> False
      | c # cs \<Rightarrow> if c = CHR ''-'' \<or> c = CHR ''+'' then digits_ok cs else digits_ok s)"

definition field_parses :: "string \<Rightarrow> bool" where
  "field_parses segment =
     (strip segment = [] \<or> strip segment = ''-9999'' \<or> strip segment = ''-8888'' \<or>
      int_text (strip segment))"

lemma py_int_Inr_iff: "(\<exists>v. py_int s = Inr v) \<longleftrightarrow> int_text s"
  by (cases s) (simp_all add: py_int_def int_text_def)

lemma parse_int_Inr_iff: "(\<exists>v. parse_int segment = Inr v) \<longleftrightarrow> field_parses segment"
proof (cases "strip segment = [] \<or> strip segment = ''-9999'' \<or> strip segment = ''-8888''")
  case True
  then show ?thesis by (auto simp: parse_int_def field_parses_def)
next
  case False
  then have "parse_int segment = bind_err (py_int (strip segment)) (\<lambda>v. Inr (Some v))"
    by (simp add: parse_int_def Let_def)
  moreover have "(\<exists>v. bind_err (py_int (strip segment)) (\<lambda>v. Inr (Some v)) = Inr v) \<longleftrightarrow>
                 (\<exists>v. py_int (strip segment) = Inr v)"
    by (cases "py_int (strip segment)") (simp_all add: bind_err_def)
  ultimately show ?thesis
    using False by (simp add: field_parses_def py_int_Inr_iff)
qed

lemma bind_err_Inr_ex:
  "(\<exists>v. bind_err m f = Inr v) \<longleftrightarrow> (\<exists>x. m = Inr x \<and> (\<exists>v. f x = Inr v))"
  by (cases m) (simp_all add: bind_err_def)

lemma parse_header_Inr_iff:
  "(\<exists>h. parse_header hd_line = Inr h) \<longleftrightarrow>
     field_parses (slice 13 17 hd_line) \<and> field_parses (slice 18 20 hd_line) \<and>
     field_parses (slice 21 23 hd_line) \<and> field_parses (slice 24 26 hd_line) \<and>
     field_parses (slice 32 36 hd_line)"
  unfolding parse_header_def bind_err_Inr_ex parse_int_Inr_iff [symmetric]
  by auto

lemma read_block_malformed:
  assumes "parse_header hd_line = Inr h"
      and "hdr_year h = None \<or> hdr_month h = None \<or> hdr_day h = None"
  shows "read_block hd_line lines = Inr (None, drop (nat (num_levels h)) lines)"
  using assms
  by (auto simp: read_block_def bind_err_def skip_lines_drop split: option.splits)

lemma parse_loop_header:
  assumes "startswith hd_line ''#''"
  shows "parse_loop (hd_line # lines) records =
           (case read_block hd_line lines of
              Inl e \<Rightarrow> Inl e
            | Inr (None, rest') \<Rightarrow> parse_loop rest' records
            | Inr (Some rc, rest') \<Rightarrow> parse_loop rest' (records @ [rc]))"
proof -
  from assms have "hd_line \<noteq> []" by (auto simp: startswith_def)
  with assms show ?thesis by simp
qed

text \<open>
  A header without a year that declares two levels, with its two level lines; the same
  header with the text \<open>1x\<close> in its hour field; and a block of 16 January 2020 with
  three levels.
\<close>

definition c3_header :: string where
  "c3_header = ''#USM00072403      01 15 12 1105    2'' @ [CHR 0x0A]"

definition c3_bad_header :: string where
  "c3_bad_header = ''#USM00072403      01 15 1x 1105    2'' @ [CHR 0x0A]"

definition c3_block :: "string list" where
  "c3_block =
     [''10 -9999  92500   762B  100B  650'' @ [CHR 0x0A],
      ''20 -9999  70000  3012B  -50B  300'' @ [CHR 0x0A]]"

definition c3_next :: string where
  "c3_next = ''#USM00072403 2020 01 16 00 1105    3'' @ [CHR 0x0A]"

definition c3_levels :: "string list" where
  "c3_levels =
     [''10 -9999  92500   762B  100B  650'' @ [CHR 0x0A],
      ''10 -9999  85000  1457B   50B-9999'' @ [CHR 0x0A],
      ''20 -9999  70000  3012B  -50B  300'' @ [CHR 0x0A]]"

text \<open>
  C3, as stated, fails on a header that lacks the year and holds text that is not a
  number in another field: the year of \<open>c3_bad_header\<close> is absent and its level count
  is 2, but \<open>int\<close> raises on the hour field before the date is looked at, so no line
  is passed over and the parse ends with \<open>ValueError\<close>.
\<close>

theorem malformed_header_bad_field_counterexample:
  "startswith c3_bad_header ''#'' \<and>
   parse_int (slice 13 17 c3_bad_header) = Inr None \<and>
   parse_int (slice 32 36 c3_bad_header) = Inr (Some 2) \<and>
   read_block c3_bad_header (c3_block @ c3_next # c3_levels) = Inl ValueError \<and>
   parse_igra_soundings (c3_bad_header # c3_block @ c3_next # c3_levels) = Inl ValueError"
  by code_simp

text \<open>
  C3, amended. When the five fields of a header line parse and the year, the month or
  the day is absent, the round of the loop yields no record and passes over the declared
  number of level lines (fewer only when the input ends first). With a block of exactly
  that many lines the cursor is at the line after the block: at the end of the input the
  loop returns the records unchanged; a header that follows is read as the next header, the
  record of its block is appended right after the records made before, and an error of
  its block is the error of the parse.
\<close>

theorem malformed_header_skips_block:
  assumes "startswith hd_line ''#''"
      and "parse_header hd_line = Inr h"
      and "hdr_year h = None \<or> hdr_month h = None \<or> hdr_day h = None"
  shows "read_block hd_line lines = Inr (None, drop (nat (num_levels h)) lines) \<and>
         (length block = nat (num_levels h) \<longrightarrow>
            read_block hd_line (block @ rest) = Inr (None, rest) \<and>
            parse_loop (hd_line # block) records = Inr records \<and>
            (startswith nxt ''#'' \<and> read_block nxt rest = Inr (Some rc, rest') \<longrightarrow>
               parse_loop (hd_line # block @ nxt # rest) records = parse_loop rest' (records @ [rc])) \<and>
            (startswith nxt ''#'' \<and> read_block nxt rest = Inr (Some rc, []) \<longrightarrow>
               parse_loop (hd_line # block @ nxt # rest) records = Inr (records @ [rc])) \<and>
            (startswith nxt ''#'' \<and> read_block nxt rest = Inl e \<longrightarrow>
               parse_loop (hd_line # block @ nxt # rest) records = Inl e))"
proof -
  have rb: "read_block hd_line ls = Inr (None, drop (nat (num_levels h)) ls)" for ls
    by (rule read_block_malformed [OF assms(2,3)])
  have pl: "parse_loop (hd_line # ls) records = parse_loop (drop (nat (num_levels h)) ls) records" for ls
    by (simp only: parse_loop_header [OF assms(1)] rb sum.case prod.case option.case)
  have "read_block hd_line (block @ rest) = Inr (None, rest) \<and>
        parse_loop (hd_line # block) records = Inr records \<and>
        (startswith nxt ''#'' \<and> read_block nxt rest = Inr (Some rc, rest') \<longrightarrow>
           parse_loop (hd_line # block @ nxt # rest) records = parse_loop rest' (records @ [rc])) \<and>
        (startswith nxt ''#'' \<and> read_block nxt rest = Inr (Some rc, []) \<longrightarrow>
           parse_loop (hd_line # block @ nxt # rest) records = Inr (records @ [rc])) \<and>
        (startswith nxt ''#'' \<and> read_block nxt rest = Inl e \<longrightarrow>
           parse_loop (hd_line # block @ nxt # rest) records = Inl e)"
    if len: "length block = nat (num_levels h)"
  proof (intro conjI impI)
    show "read_block hd_line (block @ rest) = Inr (None, rest)"
      using rb [of "block @ rest"] len by simp
    show "parse_loop (hd_line # block) records = Inr records"
      using pl [of block] len by simp
    have nx: "parse_loop (hd_line # block @ nxt # rest) records = parse_loop (nxt # rest) records"
      using pl [of "block @ nxt # rest"] len by simp
    { assume a: "startswith nxt ''#'' \<and> read_block nxt rest = Inr (Some rc, rest')"
      then have sw: "startswith nxt ''#''" and r: "read_block nxt rest = Inr (Some rc, rest')"
        by simp_all
      show "parse_loop (hd_line # block @ nxt # rest) records = parse_loop rest' (records @ [rc])"
        by (simp only: nx parse_loop_header [OF sw] r sum.case prod.case option.case) }
    { assume a: "startswith nxt ''#'' \<and> read_block nxt rest = Inr (Some rc, [])"
      then have sw: "startswith nxt ''#''" and r: "read_block nxt rest = Inr (Some rc, [])"
        by simp_all
      have "parse_loop (hd_line # block @ nxt # rest) records = parse_loop [] (records @ [rc])"
        by (simp only: nx parse_loop_header [OF sw] r sum.case prod.case option.case)
      then show "parse_loop (hd_line # block @ nxt # rest) records = Inr (records @ [rc])"
        by simp }
    { assume a: "startswith nxt ''#'' \<and> read_block nxt rest = Inl e"
      then have sw: "startswith nxt ''#''" and r: "read_block nxt rest = Inl e"
        by simp_all
      show "parse_loop (hd_line # block @ nxt # rest) records = Inl e"
        by (simp only: nx parse_loop_header [OF sw] r sum.case) }
  qed
  with rb [of lines] show ?thesis by blast
qed

lemma c3_header_fields:
  "parse_header c3_header =
     Inr \<lparr>hdr_year = None, hdr_month = Some 1, hdr_day = Some 15, hdr_hour = Some 12, num_levels = 2\<rparr>"
  by code_simp

lemma c3_next_block:
  "(case read_block c3_next c3_levels of
      Inr (Some rc, rest') \<Rightarrow>
        datetime rc = \<lparr>ts_year = 2020, ts_month = 1, ts_day = 16, ts_hour = 0\<rparr> \<and> rest' = []
    | _ \<Rightarrow> False)"
  by code_simp

text \<open>
  The two level lines are passed over, and the block that follows gives the one record
  of the parse.
\<close>

theorem malformed_header_skips_block_witness:
  "read_block c3_header (c3_block @ c3_next # c3_levels) = Inr (None, c3_next # c3_levels) \<and>
   parse_loop (c3_header # c3_block) [] = Inr [] \<and>
   map_sum id (map datetime) (parse_loop (c3_header # c3_block @ c3_next # c3_levels) []) =
     Inr [\<lparr>ts_year = 2020, ts_month = 1, ts_day = 16, ts_hour = 0\<rparr>]"
proof -
  let ?h = "\<lparr>hdr_year = None, hdr_month = Some 1, hdr_day = Some 15, hdr_hour = Some 12,
             num_levels = 2\<rparr>"
  have a: "startswith c3_header ''#''"
    by (simp add: startswith_def c3_header_def)
  have a': "startswith c3_next ''#''"
    by (simp add: startswith_def c3_next_def)
  have b: "hdr_year ?h = None \<or> hdr_month ?h = None \<or> hdr_day ?h = None"
    by simp
  have c: "length c3_block = nat (num_levels ?h)"
    by (simp add: c3_block_def)
  from c3_next_block obtain rc where
    rb: "read_block c3_next c3_levels = Inr (Some rc, [])"
    and dt: "datetime rc = \<lparr>ts_year = 2020, ts_month = 1, ts_day = 16, ts_hour = 0\<rparr>"
    by (auto split: sum.splits option.splits prod.splits)
  note t = malformed_header_skips_block [OF a c3_header_fields b,
      where lines = "[]" and block = c3_block and rest = "c3_next # c3_levels" and records = "[]"
        and nxt = c3_next and rc = rc and rest' = "[]" and e = ValueError]
  from t c have r1: "read_block c3_header (c3_block @ c3_next # c3_levels) = Inr (None, c3_next # c3_levels)"
    by blast
  from t c have r2: "parse_loop (c3_header # c3_block) [] = Inr []"
    by blast
  note u = malformed_header_skips_block [OF a c3_header_fields b,
      where lines = "[]" and block = c3_block and rest = c3_levels and records = "[]"
        and nxt = c3_next and rc = rc and rest' = "[]" and e = ValueError]
  from u c a' rb have "parse_loop (c3_header # c3_block @ c3_next # c3_levels) [] = Inr ([] @ [rc])"
    by blast
  with dt have r3: "map_sum id (map datetime) (parse_loop (c3_header # c3_block @ c3_next # c3_levels) []) =
     Inr [\<lparr>ts_year = 2020, ts_month = 1, ts_day = 16, ts_hour = 0\<rparr>]"
    by simp
  from r1 r2 r3 show ?thesis by (intro conjI)
qed

subsection \<open>The order of month strings\<close>

text \<open>
  Decimal numerals of the same length are ordered as the numbers they denote, so month
  strings with years of the same length are ordered chronologically.
\<close>

lemma of_char_digit: "d < 10 \<Longrightarrow> of_char (digit_char d) = 48 + d"
proof -
  assume "d < 10"
  then have "d \<in> {0, 1, 2, 3, 4, 5, 6, 7, 8, 9}" by auto
  then show ?thesis by (auto simp: digit_char_def)
qed

lemma digit_char_less: "a < 10 \<Longrightarrow> b < 10 \<Longrightarrow> digit_char a < digit_char b \<longleftrightarrow> a < b"
  by (simp add: less_char_def of_char_digit)

lemma str_nat_small: "n < 10 \<Longrightarrow> str_nat n = [digit_char n]"
  by (subst str_nat.simps) simp

lemma str_nat_large: "10 \<le> n \<Longrightarrow> str_nat n = str_nat (n div 10) @ [digit_char (n mod 10)]"
  by (subst str_nat.simps) simp

lemma length_str_nat_pos: "0 < length (str_nat n)"
  by (subst str_nat.simps) simp

lemma length_str_nat_one: "length (str_nat n) = 1 \<longleftrightarrow> n < 10"
proof (cases "n < 10")
  case True
  then show ?thesis by (simp add: str_nat_small)
next
  case False
  then have "length (str_nat n) = Suc (length (str_nat (n div 10)))"
    by (simp add: str_nat_large)
  with length_str_nat_pos [of "n div 10"] False show ?thesis by simp
qed

lemma list_less_append_same_length:
  fixes xs ys :: "'a::linorder list"
  assumes "xs < ys" and "length xs = length ys"
  shows "xs @ us < ys @ vs"
  using assms lexord_sufI [of xs ys "{(u, v). u < v}" us vs]
  by (simp add: list_less_def)

lemma list_less_same_prefix:
  fixes us vs :: "'a::linorder list"
  shows "xs @ us < xs @ vs \<longleftrightarrow> us < vs"
  by (simp add: list_less_def lexord_same_pref_iff)

lemma div_mod_10_less:
  fixes a b :: nat
  assumes "a < b"
  shows "a div 10 < b div 10 \<or> a div 10 = b div 10 \<and> a mod 10 < b mod 10"
proof -
  have le: "a div 10 \<le> b div 10"
    using assms by (simp add: div_le_mono)
  have "a mod 10 < b mod 10" if eq: "a div 10 = b div 10"
  proof -
    have "10 * (a div 10) + a mod 10 = a" "10 * (b div 10) + b mod 10 = b"
      by (rule mult_div_mod_eq)+
    with assms eq show ?thesis by linarith
  qed
  with le show ?thesis by (cases "a div 10 = b div 10") simp_all
qed

lemma str_nat_strict_mono:
  "length (str_nat a) = length (str_nat b) \<Longrightarrow> a < b \<Longrightarrow> str_nat a < str_nat b"
proof (induction a arbitrary: b rule: str_nat.induct)
  case (1 a)
  show ?case
  proof (cases "a < 10")
    case True
    then have "length (str_nat b) = 1"
      using "1.prems"(1) by (simp add: str_nat_small)
    then have "b < 10" using length_str_nat_one [of b] by simp
    with True "1.prems"(2) show ?thesis
      by (simp add: str_nat_small digit_char_less)
  next
    case False
    then have a: "str_nat a = str_nat (a div 10) @ [digit_char (a mod 10)]"
      by (simp add: str_nat_large)
    from False "1.prems"(2) have "10 \<le> b" by simp
    then have b: "str_nat b = str_nat (b div 10) @ [digit_char (b mod 10)]"
      by (simp add: str_nat_large)
    from "1.prems"(1) a b
    have len: "length (str_nat (a div 10)) = length (str_nat (b div 10))" by simp
    from "1.prems"(2) have "a div 10 < b div 10 \<or> a div 10 = b div 10 \<and> a mod 10 < b mod 10"
      by (rule div_mod_10_less)
    then show ?thesis
    proof
      assume "a div 10 < b div 10"
      with "1.IH" [OF False len] have "str_nat (a div 10) < str_nat (b div 10)" .
      then show ?thesis
        unfolding a b using len by (rule list_less_append_same_length)
    next
      assume "a div 10 = b div 10 \<and> a mod 10 < b mod 10"
      then show ?thesis
        unfolding a b by (simp add: list_less_same_prefix digit_char_less)
    qed
  qed
qed

lemma zfill_2_month:
  "1 \<le> m \<Longrightarrow> m \<le> 12 \<Longrightarrow>
   zfill 2 (py_str m) = [digit_char (nat m div 10), digit_char (nat m mod 10)]"
proof -
  assume m: "1 \<le> m" "m \<le> 12"
  show ?thesis
  proof (cases "m < 10")
    case True
    with m have "nat m < 10" "nat m div 10 = 0" "nat m mod 10 = nat m" by simp_all
    with m show ?thesis
      by (simp add: zfill_def py_str_def str_nat_small digit_char_def)
  next
    case False
    with m have "10 \<le> nat m" "nat m div 10 < 10" by simp_all
    with m show ?thesis
      by (simp add: zfill_def py_str_def str_nat_large str_nat_small)
  qed
qed

lemma zfill_2_month_less:
  assumes "1 \<le> m" "m \<le> 12" "1 \<le> m'" "m' \<le> 12" "m < m'"
  shows "zfill 2 (py_str m) < zfill 2 (py_str m')"
proof -
  let ?a = "nat m" and ?b = "nat m'"
  from assms have lt: "?a < ?b" by simp
  from assms have d: "?a div 10 < 10" "?b div 10 < 10" by simp_all
  have md: "?a mod 10 < 10" "?b mod 10 < 10" by simp_all
  have eq: "zfill 2 (py_str m) = [digit_char (?a div 10), digit_char (?a mod 10)]"
           "zfill 2 (py_str m') = [digit_char (?b div 10), digit_char (?b mod 10)]"
    using assms by (simp_all only: zfill_2_month)
  from div_mod_10_less [OF lt] show ?thesis
  proof
    assume "?a div 10 < ?b div 10"
    then have "digit_char (?a div 10) < digit_char (?b div 10)"
      using d by (simp only: digit_char_less)
    then show ?thesis unfolding eq by simp
  next
    assume h: "?a div 10 = ?b div 10 \<and> ?a mod 10 < ?b mod 10"
    then have "digit_char (?a mod 10) < digit_char (?b mod 10)"
      using md by (simp only: digit_char_less)
    with h show ?thesis unfolding eq by simp
  qed
qed

text \<open>A month with a year that is not negative: every month of a timestamp is one.\<close>

definition period_ok :: "period \<Rightarrow> bool" where
  "period_ok p = (0 \<le> fst p \<and> 1 \<le> snd p \<and> snd p \<le> 12)"

lemma period_str_strict_mono:
  assumes "period_ok p" "period_ok q" "p < q"
      and "length (py_str (fst p)) = length (py_str (fst q))"
  shows "period_str p < period_str q"
proof -
  obtain y m where p: "p = (y, m)" by (cases p)
  obtain y' m' where q: "q = (y', m')" by (cases q)
  from assms(1,2) p q have ok: "0 \<le> y" "1 \<le> m" "m \<le> 12" "0 \<le> y'" "1 \<le> m'" "m' \<le> 12"
    by (simp_all add: period_ok_def)
  from assms(4) p q ok have len: "length (str_nat (nat y)) = length (str_nat (nat y'))"
    by (simp add: py_str_def)
  from assms(3) p q have "y < y' \<or> y = y' \<and> m < m'"
    by (auto simp: less_prod_def)
  then show ?thesis
  proof
    assume "y < y'"
    with ok have "nat y < nat y'" by simp
    from str_nat_strict_mono [OF len this] len
    show ?thesis
      unfolding p q period_str_def using ok
      by (simp add: py_str_def list_less_append_same_length)
  next
    assume "y = y' \<and> m < m'"
    with ok zfill_2_month_less [of m m'] show ?thesis
      unfolding p q period_str_def
      by (simp add: list_less_same_prefix)
  qed
qed

lemma length_zfill_2_month: "1 \<le> m \<Longrightarrow> m \<le> 12 \<Longrightarrow> length (zfill 2 (py_str m)) = 2"
  by (simp add: zfill_2_month)

lemma period_str_inj:
  assumes "period_ok p" "period_ok q" "period_str p = period_str q"
  shows "p = q"
proof (rule ccontr)
  assume ne: "p \<noteq> q"
  from assms have "length (period_str p) = length (period_str q)" by simp
  with assms(1,2) have len: "length (py_str (fst p)) = length (py_str (fst q))"
    by (simp add: period_str_def period_ok_def length_zfill_2_month)
  from ne have "p < q \<or> q < p" by auto
  then have "period_str p < period_str q \<or> period_str q < period_str p"
    using period_str_strict_mono [OF assms(1,2) _ len]
          period_str_strict_mono [OF assms(2,1) _ len [symmetric]] by blast
  with assms(3) show False by simp
qed

lemma length_py_str_4: "1000 \<le> y \<Longrightarrow> y \<le> 9999 \<Longrightarrow> length (py_str y) = 4"
proof -
  assume y: "1000 \<le> y" "y \<le> 9999"
  let ?n = "nat y"
  from y have n: "1000 \<le> ?n" "?n \<le> 9999" by simp_all
  then have "10 \<le> ?n" "10 \<le> ?n div 10" "10 \<le> ?n div 10 div 10" "?n div 10 div 10 div 10 < 10"
    by simp_all
  then have "length (str_nat ?n) = 4"
    by (simp add: str_nat_large [of ?n] str_nat_large [of "?n div 10"]
          str_nat_large [of "?n div 10 div 10"] str_nat_small [of "?n div 10 div 10 div 10"])
  with y show ?thesis by (simp add: py_str_def)
qed

lemma four_digit_month_ok: "four_digit_month p \<Longrightarrow> period_ok p"
  by (simp add: four_digit_month_def period_ok_def)

lemma four_digit_month_length: "four_digit_month p \<Longrightarrow> length (py_str (fst p)) = 4"
  by (simp add: four_digit_month_def length_py_str_4)

lemma period_str_mono_four_digit:
  assumes "four_digit_month p" "four_digit_month q" "p \<le> q"
  shows "period_str p \<le> period_str q"
proof (cases "p = q")
  case True
  then show ?thesis by simp
next
  case False
  with assms(3) have "p < q" by simp
  then have "period_str p < period_str q"
    using assms(1,2)
    by (intro period_str_strict_mono) (simp_all add: four_digit_month_ok four_digit_month_length)
  then show ?thesis by simp
qed

lemma period_str_2010_01: "period_str (2010, 1) = ''2010-01''"
  by (simp add: period_str_def zfill_def py_str_def str_nat.simps digit_char_def)

lemma floor_2010_01:
  assumes "four_digit_month p" "''2010-01'' \<le> period_str p"
  shows "(2010, 1) \<le> p"
proof (rule ccontr)
  assume "\<not> (2010, 1) \<le> p"
  then have "p < (2010, 1)" by simp
  have "four_digit_month (2010, 1)" by (simp add: four_digit_month_def)
  note f = \<open>four_digit_month (2010, 1)\<close>
  have len: "length (py_str (fst p)) = length (py_str (fst ((2010, 1)::period)))"
    by (simp only: four_digit_month_length [OF assms(1)] four_digit_month_length [OF f])
  have "period_str p < period_str (2010, 1)"
    by (rule period_str_strict_mono
          [OF four_digit_month_ok [OF assms(1)] four_digit_month_ok [OF f] \<open>p < (2010, 1)\<close> len])
  with assms(2) show False by (simp add: period_str_2010_01)
qed

text \<open>An inner join keeps the rows whose key is on both sides, in the order of the left table.\<close>

lemma set_merge_inner:
  "set (merge_inner left right) = {(k, a, b). (k, a) \<in> set left \<and> (k, b) \<in> set right}"
  by (auto simp: merge_inner_def) force

lemma merge_inner_Cons:
  "merge_inner (l # left) right =
     map (\<lambda>rt. (fst l, snd l, snd rt)) (filter (\<lambda>rt. fst rt = fst l) right) @ merge_inner left right"
  by (simp add: merge_inner_def)

lemma sorted_merge_inner:
  fixes left :: "('k::linorder \<times> 'a) list"
  assumes "sorted_wrt (\<lambda>a b. a \<in> A \<longrightarrow> b \<in> A \<longrightarrow> a \<le> b) (map fst left)"
      and "fst ` set right \<subseteq> A"
  shows "sorted (map fst (merge_inner left right))"
  using assms(1)
proof (induction left)
  case Nil
  then show ?case by (simp add: merge_inner_def)
next
  case (Cons l left)
  let ?blk = "map (\<lambda>rt. (fst l, snd l, snd rt)) (filter (\<lambda>rt. fst rt = fst l) right)"
  have blk: "map fst ?blk = replicate (length ?blk) (fst l)"
    by (simp add: map_replicate_const comp_def)
  have s1: "sorted (map fst ?blk)"
    by (subst blk) simp
  from Cons have s2: "sorted (map fst (merge_inner left right))" by simp
  have cross: "x \<le> y" if "x \<in> set (map fst ?blk)" "y \<in> set (map fst (merge_inner left right))" for x y
  proof -
    from that(1) have x: "x = fst l" "fst l \<in> fst ` set right" by force+
    from that(2) have y: "y \<in> fst ` set left" "y \<in> fst ` set right"
      by (auto simp: set_merge_inner intro: rev_image_eqI)
    from x y assms(2) have "x \<in> A" "y \<in> A" by auto
    moreover from Cons.prems y(1) x(1)
    have "x \<in> A \<longrightarrow> y \<in> A \<longrightarrow> x \<le> y" by auto
    ultimately show ?thesis by simp
  qed
  show ?case
    unfolding merge_inner_Cons map_append sorted_append
    using s1 s2 cross by blast
qed

subsection \<open>The months of the parsed soundings\<close>

lemma Timestamp_period_ok: "Timestamp y m d h = Inr ts \<Longrightarrow> period_ok (to_period ts)"
  by (auto simp: Timestamp_def period_ok_def to_period_def split: if_splits)

lemma bind_err_Inr: "bind_err m f = Inr v \<longleftrightarrow> (\<exists>x. m = Inr x \<and> f x = Inr v)"
  by (cases m) (simp_all add: bind_err_def)

lemma make_record_datetime: "make_record ts st = Inr (Some rc) \<Longrightarrow> datetime rc = ts"
  unfolding make_record_def
  by (auto simp: bind_err_Inr split: option.splits)

lemma read_block_period_ok:
  assumes "read_block hd_line rest = Inr (Some rc, rest')"
  shows "period_ok (to_period (datetime rc))"
proof -
  from assms obtain h where h: "parse_header hd_line = Inr h"
    and body: "(case (hdr_year h, hdr_month h, hdr_day h) of
         (Some y, Some mo, Some d) \<Rightarrow>
           if y = 0 \<or> mo = 0 \<or> d = 0
           then Inr (None, skip_lines (nat (num_levels h)) rest)
           else
             bind_err (Timestamp y mo d (hour_or_zero (hdr_hour h))) (\<lambda>sounding_ts.
             bind_err (read_levels (nat (num_levels h)) rest Map.empty) (\<lambda>(level_store, rest').
             bind_err (make_record sounding_ts level_store) (\<lambda>rcd. Inr (rcd, rest'))))
       | _ \<Rightarrow> Inr (None, skip_lines (nat (num_levels h)) rest)) = Inr (Some rc, rest')"
    unfolding read_block_def bind_err_Inr by blast
  from body obtain y mo d where
    ymd: "hdr_year h = Some y" "hdr_month h = Some mo" "hdr_day h = Some d"
    by (cases "hdr_year h"; cases "hdr_month h"; cases "hdr_day h") simp_all
  from body ymd obtain ts st where
    ts: "Timestamp y mo d (hour_or_zero (hdr_hour h)) = Inr ts"
    and mk: "make_record ts st = Inr (Some rc)"
    by (auto simp: bind_err_Inr split: if_splits)
  from make_record_datetime [OF mk] Timestamp_period_ok [OF ts] show ?thesis by simp
qed

lemma parse_loop_period_ok:
  "parse_loop lines records = Inr out \<Longrightarrow>
   \<forall>rc \<in> set records. period_ok (to_period (datetime rc)) \<Longrightarrow>
   \<forall>rc \<in> set out. period_ok (to_period (datetime rc))"
proof (induction lines records rule: parse_loop.induct)
  case (1 records)
  then show ?case by simp
next
  case (2 hd_line rest records)
  show ?case
  proof (cases "hd_line = []")
    case True
    with "2.prems" show ?thesis by simp
  next
    case ne: False
    show ?thesis
    proof (cases "startswith hd_line ''#''")
      case False
      from "2.prems"(1) ne False have "parse_loop rest records = Inr out" by simp
      from "2.IH"(1) [OF ne False this "2.prems"(2)] show ?thesis .
    next
      case True
      then have sw: "\<not> \<not> startswith hd_line ''#''" by simp
      show ?thesis
      proof (cases "read_block hd_line rest")
        case (Inl e)
        with ne True "2.prems"(1) show ?thesis by simp
      next
        case (Inr res)
        obtain r rest' where res: "res = (r, rest')" by (cases res)
        show ?thesis
        proof (cases r)
          case None
          from "2.prems"(1) ne True Inr res None
          have "parse_loop rest' records = Inr out" by simp
          from "2.IH"(2) [OF ne sw Inr res [symmetric] None this "2.prems"(2)]
          show ?thesis .
        next
          case (Some rc)
          from Inr res Some have "period_ok (to_period (datetime rc))"
            by (auto dest: read_block_period_ok)
          with "2.prems"(2)
          have inv: "\<forall>rc \<in> set (records @ [rc]). period_ok (to_period (datetime rc))" by simp
          from "2.prems"(1) ne True Inr res Some
          have "parse_loop rest' (records @ [rc]) = Inr out" by simp
          from "2.IH"(3) [OF ne sw Inr res [symmetric] Some this inv]
          show ?thesis .
        qed
      qed
    qed
  qed
qed

lemma parse_igra_soundings_period_ok:
  assumes "parse_igra_soundings lines = Inr df" "rc \<in> set df"
  shows "period_ok (to_period (datetime rc))"
proof -
  from assms(1) obtain records where pl: "parse_loop lines [] = Inr records"
    and df: "df = filter (\<lambda>rc. theta_gradient_700_925_K rc \<noteq> None) records"
    by (auto simp: parse_igra_soundings_def bind_err_Inr split: if_splits)
  from parse_loop_period_ok [OF pl] have "\<forall>rc \<in> set records. period_ok (to_period (datetime rc))"
    by simp
  with assms(2) df show ?thesis by simp
qed

subsection \<open>The merged monthly table\<close>

lemma aerosol_monthly_iff:
  "(k, a, b) \<in> set (aerosol_monthly aod sda) \<longleftrightarrow>
     (\<exists>p. k = period_str p \<and> (p, a) \<in> set aod \<and> (p, b) \<in> set sda)"
proof
  assume "(k, a, b) \<in> set (aerosol_monthly aod sda)"
  then obtain row where r: "row \<in> set (merge_inner aod sda)" "k = period_str (fst row)" "(a, b) = snd row"
    by (auto simp: aerosol_monthly_def)
  obtain p a' b' where "row = (p, a', b')" by (cases row) auto
  with r have "k = period_str p \<and> (p, a) \<in> set aod \<and> (p, b) \<in> set sda"
    by (simp add: set_merge_inner)
  then show "\<exists>p. k = period_str p \<and> (p, a) \<in> set aod \<and> (p, b) \<in> set sda" ..
next
  assume "\<exists>p. k = period_str p \<and> (p, a) \<in> set aod \<and> (p, b) \<in> set sda"
  then obtain p where p: "k = period_str p" "(p, a) \<in> set aod" "(p, b) \<in> set sda" by blast
  then have "(p, a, b) \<in> set (merge_inner aod sda)" by (simp add: set_merge_inner)
  then have "(period_str (fst (p, a, b)), snd (p, a, b)) \<in> set (aerosol_monthly aod sda)"
    unfolding aerosol_monthly_def set_map set_sort by (rule imageI)
  with p(1) show "(k, a, b) \<in> set (aerosol_monthly aod sda)" by simp
qed

lemma compute_monthly_metrics_keys:
  "map fst (compute_monthly_metrics df) =
     map period_str (sort (remdups (map (\<lambda>rc. to_period (datetime rc)) df)))"
  by (simp add: compute_monthly_metrics_def groupby_def comp_def)

lemma set_merged:
  "set (merged igra aer) = {(k, m, ab). ''2010-01'' \<le> k \<and> (k, m) \<in> set igra \<and> (k, ab) \<in> set aer}"
  by (auto simp: merged_def set_merge_inner)

text \<open>
  C2. When \<open>main\<close> produces the merged table from aerosol months with four-digit
  years, the table is sorted ascending by month, and every row has a month that is at or
  after 2010-01, both as a string and as a date, that occurs among the months of the
  soundings, in the optical-depth table and in the spectral-deconvolution table; its
  columns are those of a row of that month in each of the three sources.
\<close>

theorem merged_months_sorted_intersection:
  assumes "main_merged lines aod_monthly sda_monthly = Inr out"
      and "\<forall>p \<in> fst ` set aod_monthly. four_digit_month p"
  shows "sorted (map fst out) \<and>
         (\<forall>row \<in> set out.
            ''2010-01'' \<le> fst row \<and>
            (\<exists>df p. parse_igra_soundings lines = Inr df \<and>
               fst row = period_str p \<and> (2010, 1) \<le> p \<and>
               p \<in> (\<lambda>rc. to_period (datetime rc)) ` set df \<and>
               (fst row, fst (snd row)) \<in> set (compute_monthly_metrics df) \<and>
               (p, fst (snd (snd row))) \<in> set aod_monthly \<and>
               (p, snd (snd (snd row))) \<in> set sda_monthly))"
proof -
  let ?aer = "aerosol_monthly aod_monthly sda_monthly"
  from assms(1) obtain df where df: "parse_igra_soundings lines = Inr df"
    and out: "out = merged (compute_monthly_metrics df) ?aer"
    by (auto simp: main_merged_def bind_err_Inr)
  let ?igra = "compute_monthly_metrics df"
  let ?ks = "sort (remdups (map (\<lambda>rc. to_period (datetime rc)) df))"
  have ks_ok: "period_ok q" if "q \<in> set ?ks" for q
    using that parse_igra_soundings_period_ok [OF df] by auto
  have aer_key: "\<exists>p. k = period_str p \<and> four_digit_month p \<and> p \<in> fst ` set aod_monthly"
    if "k \<in> fst ` set ?aer" for k
  proof -
    from that obtain a b where "(k, a, b) \<in> set ?aer" by force
    then obtain p where "k = period_str p" "(p, a) \<in> set aod_monthly"
      by (auto simp: aerosol_monthly_iff)
    moreover then have "p \<in> fst ` set aod_monthly" by force
    ultimately show ?thesis using assms(2) by blast
  qed
  have same: "q = p" if "q \<in> set ?ks" "four_digit_month p" "period_str q = period_str p" for q p
    using period_str_inj [OF ks_ok [OF that(1)] four_digit_month_ok [OF that(2)] that(3)] .
  have "sorted_wrt (\<lambda>x y. period_str x \<in> fst ` set ?aer \<longrightarrow> period_str y \<in> fst ` set ?aer \<longrightarrow>
                       period_str x \<le> period_str y) ?ks"
  proof (rule sorted_wrt_mono_rel [where P = "(\<le>)"])
    fix x y assume xy: "x \<in> set ?ks" "y \<in> set ?ks" "x \<le> y"
    show "period_str x \<in> fst ` set ?aer \<longrightarrow> period_str y \<in> fst ` set ?aer \<longrightarrow>
          period_str x \<le> period_str y"
    proof (intro impI)
      assume "period_str x \<in> fst ` set ?aer" "period_str y \<in> fst ` set ?aer"
      then obtain p q where p: "period_str x = period_str p" "four_digit_month p"
        and q: "period_str y = period_str q" "four_digit_month q"
        using aer_key by blast
      from same [OF xy(1) p(2) p(1)] same [OF xy(2) q(2) q(1)] p(2) q(2)
      have "four_digit_month x" "four_digit_month y" by simp_all
      then show "period_str x \<le> period_str y"
        using xy(3) by (rule period_str_mono_four_digit)
    qed
  next
    show "sorted_wrt (\<le>) ?ks" by simp
  qed
  then have "sorted_wrt (\<lambda>a b. a \<in> fst ` set ?aer \<longrightarrow> b \<in> fst ` set ?aer \<longrightarrow> a \<le> b)
               (map fst ?igra)"
    by (simp only: compute_monthly_metrics_keys sorted_wrt_map)
  then have "sorted (map fst (merge_inner ?igra ?aer))"
    by (rule sorted_merge_inner) simp
  then have srt: "sorted (map fst out)"
    unfolding out merged_def by (rule sorted_filter)
  have rows: "''2010-01'' \<le> fst row \<and>
            (\<exists>df p. parse_igra_soundings lines = Inr df \<and>
               fst row = period_str p \<and> (2010, 1) \<le> p \<and>
               p \<in> (\<lambda>rc. to_period (datetime rc)) ` set df \<and>
               (fst row, fst (snd row)) \<in> set (compute_monthly_metrics df) \<and>
               (p, fst (snd (snd row))) \<in> set aod_monthly \<and>
               (p, snd (snd (snd row))) \<in> set sda_monthly)" if "row \<in> set out" for row
  proof -
    obtain k m a b where row: "row = (k, m, a, b)" by (cases row) auto
    from that row out have ge: "''2010-01'' \<le> k" and ig: "(k, m) \<in> set ?igra"
      and ae: "(k, a, b) \<in> set ?aer"
      by (simp_all add: set_merged)
    from ae obtain p where p: "k = period_str p" "(p, a) \<in> set aod_monthly" "(p, b) \<in> set sda_monthly"
      by (auto simp: aerosol_monthly_iff)
    from p(2) have "p \<in> fst ` set aod_monthly" by force
    with assms(2) have fd: "four_digit_month p" by blast
    from ig have "k \<in> set (map fst ?igra)" by force
    then obtain q where q: "q \<in> set ?ks" "k = period_str q"
      unfolding compute_monthly_metrics_keys by auto
    from same [OF q(1) fd] q(2) p(1) have "q = p" by simp
    with q(1) have mem: "p \<in> (\<lambda>rc. to_period (datetime rc)) ` set df" by simp
    from floor_2010_01 [OF fd] ge p(1) have fl: "(2010, 1) \<le> p" by simp
    from ge row have "''2010-01'' \<le> fst row" by simp
    moreover from df p mem ig fl
    have "parse_igra_soundings lines = Inr df \<and>
               fst row = period_str p \<and> (2010, 1) \<le> p \<and>
               p \<in> (\<lambda>rc. to_period (datetime rc)) ` set df \<and>
               (fst row, fst (snd row)) \<in> set (compute_monthly_metrics df) \<and>
               (p, fst (snd (snd row))) \<in> set aod_monthly \<and>
               (p, snd (snd (snd row))) \<in> set sda_monthly"
      unfolding row by simp
    ultimately show ?thesis by blast
  qed
  from srt rows show ?thesis by blast
qed

text \<open>
  One sounding of January 2020, an optical-depth table for 2009-05 and 2020-01 and a
  spectral-deconvolution table for 2020-01 and 2020-02.
\<close>

definition c2_lines :: "string list" where
  "c2_lines =
     [''#USM00072403 2020 01 15 12 1105    3'' @ [CHR 0x0A],
      ''10 -9999  92500   762B  100B  650'' @ [CHR 0x0A],
      ''10 -9999  85000  1457B   50B-9999'' @ [CHR 0x0A],
      ''20 -9999  70000  3012B  -50B  300'' @ [CHR 0x0A]]"

definition c2_aod :: "(period \<times> real option) list" where
  "c2_aod = [((2009, 5), Some 0.31), ((2020, 1), Some 0.42)]"

definition c2_sda :: "(period \<times> real option) list" where
  "c2_sda = [((2020, 1), Some 0.25), ((2020, 2), None)]"

lemma c2_parse:
  "map_sum id (map datetime) (parse_igra_soundings c2_lines) =
     Inr [\<lparr>ts_year = 2020, ts_month = 1, ts_day = 15, ts_hour = 12\<rparr>]"
  by code_simp

lemma c2_aer: "aerosol_monthly c2_aod c2_sda = [(''2020-01'', Some 0.42, Some 0.25)]"
  by (simp add: aerosol_monthly_def merge_inner_def c2_aod_def c2_sda_def period_str_def
        zfill_def py_str_def str_nat.simps digit_char_def)

text \<open>The merged table has the one month the three sources share.\<close>

theorem merged_months_sorted_intersection_witness:
  "\<exists>out. main_merged c2_lines c2_aod c2_sda = Inr out \<and> map fst out = [''2020-01''] \<and>
         sorted (map fst out)"
proof -
  let ?ts = "\<lparr>ts_year = 2020, ts_month = 1, ts_day = 15, ts_hour = 12\<rparr>"
  from c2_parse obtain df where df: "parse_igra_soundings c2_lines = Inr df" "map datetime df = [?ts]"
    by (cases "parse_igra_soundings c2_lines") auto
  from df(2) obtain rc where rc: "df = [rc]" "datetime rc = ?ts" by auto
  have keys: "compute_monthly_metrics df = [(''2020-01'', aggregate [rc])]"
    by (simp add: compute_monthly_metrics_def groupby_def rc to_period_def period_str_def
          zfill_def py_str_def str_nat.simps digit_char_def)
  have le: "''2010-01'' \<le> ''2020-01''"
    by (simp add: less_char_def)
  define out where "out = merged (compute_monthly_metrics df) (aerosol_monthly c2_aod c2_sda)"
  have out: "out = [(''2020-01'', aggregate [rc], Some 0.42, Some 0.25)]"
    unfolding out_def keys c2_aer using le by (simp add: merged_def merge_inner_def)
  have mm: "main_merged c2_lines c2_aod c2_sda = Inr out"
    by (simp add: main_merged_def df(1) bind_err_def out_def)
  have fd: "\<forall>p \<in> fst ` set c2_aod. four_digit_month p"
    by (simp add: c2_aod_def four_digit_month_def)
  from merged_months_sorted_intersection [OF mm fd] have "sorted (map fst out)" by (rule conjunct1)
  with mm out show ?thesis by simp
qed

section \<open>Properties of atmospheric_analysis.py\<close>

text \<open>A merged row with the given stability, fine-mode AOD, humidity and fine-mode fraction.\<close>

definition sample_row :: "real option \<Rightarrow> real option \<Rightarrow> real option \<Rightarrow> real option \<Rightarrow> combo_row" where
  "sample_row s f h e =
     \<lparr>month = (2015, 1), theta_gradient_med = s, rh_850_med = h, soundings = Some 30,
      Total_AOD_500nm = Some 0.5, Fine_Mode_AOD_500nm = f, Coarse_Mode_AOD_500nm = Some 0.1,
      FineModeFraction_500nm = e\<rparr>"

lemma classify_dispersion_Some:
  "theta_gradient_med row = Some x \<Longrightarrow>
   classify_dispersion row =
     (if x < 8 then ''Excellent'' else if x < 12 then ''Good''
      else if x < 15 then ''Moderate'' else ''Poor'')"
  by (simp add: classify_dispersion_def nan_lt_def)

lemma classify_dispersion_None:
  "theta_gradient_med row = None \<Longrightarrow> classify_dispersion row = ''Poor''"
  by (simp add: classify_dispersion_def nan_lt_def)

text \<open>
  C4. The dispersion class is a total function of the stability value: every row gets
  one of the four labels; a present stability below 8 is "Excellent", from 8 up to but not
  including 12 "Good", from 12 up to but not including 15 "Moderate", and from 15 on "Poor".
  Exactly 8 is "Good", exactly 12 "Moderate", exactly 15 "Poor".
\<close>

theorem classify_dispersion_total:
  "classify_dispersion row \<in> {''Excellent'', ''Good'', ''Moderate'', ''Poor''} \<and>
   (\<forall>x. theta_gradient_med row = Some x \<longrightarrow>
      (classify_dispersion row = ''Excellent'' \<longleftrightarrow> x < 8) \<and>
      (classify_dispersion row = ''Good'' \<longleftrightarrow> 8 \<le> x \<and> x < 12) \<and>
      (classify_dispersion row = ''Moderate'' \<longleftrightarrow> 12 \<le> x \<and> x < 15) \<and>
      (classify_dispersion row = ''Poor'' \<longleftrightarrow> 15 \<le> x)) \<and>
   (theta_gradient_med row = Some 8 \<longrightarrow> classify_dispersion row = ''Good'') \<and>
   (theta_gradient_med row = Some 12 \<longrightarrow> classify_dispersion row = ''Moderate'') \<and>
   (theta_gradient_med row = Some 15 \<longrightarrow> classify_dispersion row = ''Poor'')"
proof (intro conjI allI impI)
  show "classify_dispersion row \<in> {''Excellent'', ''Good'', ''Moderate'', ''Poor''}"
    by (cases "theta_gradient_med row")
       (simp_all only: classify_dispersion_None classify_dispersion_Some insert_iff if_split, simp_all)
next
  fix x assume "theta_gradient_med row = Some x"
  note c = classify_dispersion_Some [OF this]
  show "classify_dispersion row = ''Excellent'' \<longleftrightarrow> x < 8"
    unfolding c by simp
  show "classify_dispersion row = ''Good'' \<longleftrightarrow> 8 \<le> x \<and> x < 12"
    unfolding c by (simp add: not_less)
  show "classify_dispersion row = ''Moderate'' \<longleftrightarrow> 12 \<le> x \<and> x < 15"
    unfolding c by (simp add: not_less)
  show "classify_dispersion row = ''Poor'' \<longleftrightarrow> 15 \<le> x"
    unfolding c by (simp add: not_less)
next
  assume "theta_gradient_med row = Some 8"
  from classify_dispersion_Some [OF this] show "classify_dispersion row = ''Good''" by simp
next
  assume "theta_gradient_med row = Some 12"
  from classify_dispersion_Some [OF this] show "classify_dispersion row = ''Moderate''" by simp
next
  assume "theta_gradient_med row = Some 15"
  from classify_dispersion_Some [OF this] show "classify_dispersion row = ''Poor''" by simp
qed

text \<open>The boundary values 8, 12 and 15, and 7.9 just below the first.\<close>

theorem classify_dispersion_total_witness:
  "classify_dispersion (sample_row (Some 8) None None None) = ''Good'' \<and>
   classify_dispersion (sample_row (Some 12) None None None) = ''Moderate'' \<and>
   classify_dispersion (sample_row (Some 15) None None None) = ''Poor'' \<and>
   classify_dispersion (sample_row (Some 7.9) None None None) = ''Excellent''"
proof -
  have th: "theta_gradient_med (sample_row s None None None) = s" for s
    by (simp add: sample_row_def)
  note t = classify_dispersion_total
  have "classify_dispersion (sample_row (Some 7.9) None None None) = ''Excellent'' \<longleftrightarrow> (7.9::real) < 8"
    using t [of "sample_row (Some 7.9) None None None", THEN conjunct2, THEN conjunct1, rule_format, OF th]
    by (rule conjunct1)
  then have a: "classify_dispersion (sample_row (Some 7.9) None None None) = ''Excellent''"
    by simp
  have b: "classify_dispersion (sample_row (Some 8) None None None) = ''Good''"
    using t [of "sample_row (Some 8) None None None", THEN conjunct2, THEN conjunct2, THEN conjunct1] th
    by (rule mp)
  have c: "classify_dispersion (sample_row (Some 12) None None None) = ''Moderate''"
    using t [of "sample_row (Some 12) None None None", THEN conjunct2, THEN conjunct2, THEN conjunct2,
               THEN conjunct1] th
    by (rule mp)
  have d: "classify_dispersion (sample_row (Some 15) None None None) = ''Poor''"
    using t [of "sample_row (Some 15) None None None", THEN conjunct2, THEN conjunct2, THEN conjunct2,
               THEN conjunct2] th
    by (rule mp)
  from a b c d show ?thesis by (intro conjI)
qed

text \<open>
  C5. A row is a high-pollution episode exactly when its stability median is present and
  above 12 and its fine-mode AOD is present and above 0.3; it is stagnant exactly when the
  stability median is above 12 and the humidity median is above 70. Each flag looks at
  its own two columns only.
\<close>

theorem episode_flags:
  "(high_pollution_episode row \<longleftrightarrow>
      (\<exists>s f. theta_gradient_med row = Some s \<and> Fine_Mode_AOD_500nm row = Some f \<and> 12 < s \<and> 0.3 < f)) \<and>
   (stagnant_conditions row \<longleftrightarrow>
      (\<exists>s h. theta_gradient_med row = Some s \<and> rh_850_med row = Some h \<and> 12 < s \<and> 70 < h))"
  by (auto simp: high_pollution_episode_def stagnant_conditions_def nan_gt_def
        STRONG_INVERSION_THRESHOLD_def HIGH_FINE_AOD_THRESHOLD_def HIGH_RH_THRESHOLD_def
      split: option.splits)

text \<open>Stability 13, fine-mode AOD 0.35, humidity 75: both flags hold.\<close>

theorem episode_flags_witness:
  "high_pollution_episode (sample_row (Some 13) (Some 0.35) (Some 75) None) \<and>
   stagnant_conditions (sample_row (Some 13) (Some 0.35) (Some 75) None)"
proof -
  let ?row = "sample_row (Some 13) (Some 0.35) (Some 75) None"
  have hp: "\<exists>s f. theta_gradient_med ?row = Some s \<and> Fine_Mode_AOD_500nm ?row = Some f \<and>
              12 < s \<and> 0.3 < f"
    by (rule exI [of _ 13], rule exI [of _ "0.35"]) (simp add: sample_row_def)
  have st: "\<exists>s h. theta_gradient_med ?row = Some s \<and> rh_850_med ?row = Some h \<and>
              12 < s \<and> 70 < h"
    by (rule exI [of _ 13], rule exI [of _ 75]) (simp add: sample_row_def)
  from hp st episode_flags [of ?row] show ?thesis by blast
qed

text \<open>
  C10. A comparison with a missing value is false: a missing stability median clears both
  flags, a missing fine-mode AOD clears the high-pollution flag, a missing humidity median
  clears the stagnant flag. The episode table is the same with the rows lacking stability
  or fine-mode AOD removed beforehand, and none of its rows lacks either.
\<close>

theorem missing_value_flags_false:
  "(theta_gradient_med row = None \<longrightarrow> \<not> high_pollution_episode row \<and> \<not> stagnant_conditions row) \<and>
   (Fine_Mode_AOD_500nm row = None \<longrightarrow> \<not> high_pollution_episode row) \<and>
   (rh_850_med row = None \<longrightarrow> \<not> stagnant_conditions row) \<and>
   identify_high_pollution_episodes combo =
     identify_high_pollution_episodes
       (filter (\<lambda>row. theta_gradient_med row \<noteq> None \<and> Fine_Mode_AOD_500nm row \<noteq> None) combo) \<and>
   (\<forall>ep \<in> set (identify_high_pollution_episodes combo).
      ep_theta_gradient_med ep \<noteq> None \<and> ep_Fine_Mode_AOD_500nm ep \<noteq> None)"
proof -
  have hp: "high_pollution_episode row \<Longrightarrow>
              theta_gradient_med row \<noteq> None \<and> Fine_Mode_AOD_500nm row \<noteq> None" for row
    by (auto simp: high_pollution_episode_def nan_gt_def split: option.splits)
  have st: "stagnant_conditions row \<Longrightarrow> theta_gradient_med row \<noteq> None \<and> rh_850_med row \<noteq> None" for row
    by (auto simp: stagnant_conditions_def nan_gt_def split: option.splits)
  have flt: "filter high_pollution_episode
               (filter (\<lambda>row. theta_gradient_med row \<noteq> None \<and> Fine_Mode_AOD_500nm row \<noteq> None) combo)
             = filter high_pollution_episode combo"
    unfolding filter_filter by (rule filter_cong) (use hp in blast)+
  have out: "\<forall>ep \<in> set (identify_high_pollution_episodes combo).
      ep_theta_gradient_med ep \<noteq> None \<and> ep_Fine_Mode_AOD_500nm ep \<noteq> None"
    using hp by (auto simp: identify_high_pollution_episodes_def episode_of_def)
  from hp [of row] st [of row] flt out show ?thesis
    unfolding identify_high_pollution_episodes_def by metis
qed

text \<open>Three rows, each lacking one of the three columns; only the last is an episode.\<close>

definition c10_combo :: "combo_row list" where
  "c10_combo =
     [sample_row None (Some 0.9) (Some 80) None,
      sample_row (Some 14) None (Some 80) None,
      sample_row (Some 14) (Some 0.9) None None]"

theorem missing_value_flags_false_witness:
  "\<not> high_pollution_episode (sample_row None (Some 0.9) (Some 80) None) \<and>
   \<not> stagnant_conditions (sample_row None (Some 0.9) (Some 80) None) \<and>
   \<not> high_pollution_episode (sample_row (Some 14) None (Some 80) None) \<and>
   \<not> stagnant_conditions (sample_row (Some 14) (Some 0.9) None None) \<and>
   identify_high_pollution_episodes c10_combo = [episode_of (sample_row (Some 14) (Some 0.9) None None)]"
proof -
  note t = missing_value_flags_false
  have a: "\<not> high_pollution_episode (sample_row None (Some 0.9) (Some 80) None) \<and>
           \<not> stagnant_conditions (sample_row None (Some 0.9) (Some 80) None)"
    using t [of "sample_row None (Some 0.9) (Some 80) None" "[]"] by (simp add: sample_row_def)
  have b: "\<not> high_pollution_episode (sample_row (Some 14) None (Some 80) None)"
    using t [of "sample_row (Some 14) None (Some 80) None" "[]"] by (simp add: sample_row_def)
  have c: "\<not> stagnant_conditions (sample_row (Some 14) (Some 0.9) None None)"
    using t [of "sample_row (Some 14) (Some 0.9) None None" "[]"] by (simp add: sample_row_def)
  have keep: "high_pollution_episode (sample_row (Some 14) (Some 0.9) None None)"
    by (simp add: high_pollution_episode_def nan_gt_def sample_row_def
          STRONG_INVERSION_THRESHOLD_def HIGH_FINE_AOD_THRESHOLD_def)
  have d: "identify_high_pollution_episodes c10_combo =
             identify_high_pollution_episodes [sample_row (Some 14) (Some 0.9) None None]"
    using t [of "sample_row None None None None" c10_combo, THEN conjunct2, THEN conjunct2, THEN conjunct2, THEN conjunct1]
    by (simp add: c10_combo_def sample_row_def del: not_None_eq)
  have e: "identify_high_pollution_episodes [sample_row (Some 14) (Some 0.9) None None] =
             [episode_of (sample_row (Some 14) (Some 0.9) None None)]"
    using keep by (simp add: identify_high_pollution_episodes_def)
  from a b c d e show ?thesis by (simp only: simp_thms)
qed

text \<open>
  C6, as stated, names the labels "Combustion-dominated" and "Mixed"; the function returns
  longer strings, so at 0.65 and at 0.55 the label is not the one the claim gives.
\<close>

theorem attribute_source_short_labels_counterexample:
  "attribute_source (sample_row None None None (Some 0.65)) \<noteq> ''Combustion-dominated'' \<and>
   attribute_source (sample_row None None None (Some 0.55)) \<noteq> ''Mixed''"
  by (simp add: attribute_source_def nan_gt_def sample_row_def)

lemma attribute_source_Some:
  "FineModeFraction_500nm row = Some x \<Longrightarrow>
   attribute_source row =
     (if 0.6 < x then ''Combustion-dominated (urban/biomass)''
      else if 0.4 < x then ''Mixed (combustion + dust)'' else ''Dust-dominated (natural)'')"
  by (simp add: attribute_source_def nan_gt_def)

text \<open>
  C6, amended. The source label is "Unknown" when the fine-mode fraction is missing,
  "Combustion-dominated (urban/biomass)" when it is above 0.6, "Mixed (combustion + dust)"
  when it is above 0.4 and at most 0.6, and "Dust-dominated (natural)" otherwise.
\<close>

theorem attribute_source_labels:
  "(FineModeFraction_500nm row = None \<longrightarrow> attribute_source row = ''Unknown'') \<and>
   (\<forall>x. FineModeFraction_500nm row = Some x \<longrightarrow>
      (0.6 < x \<longrightarrow> attribute_source row = ''Combustion-dominated (urban/biomass)'') \<and>
      (0.4 < x \<and> x \<le> 0.6 \<longrightarrow> attribute_source row = ''Mixed (combustion + dust)'') \<and>
      (x \<le> 0.4 \<longrightarrow> attribute_source row = ''Dust-dominated (natural)''))"
proof (intro conjI allI impI)
  assume "FineModeFraction_500nm row = None"
  then show "attribute_source row = ''Unknown''"
    by (simp add: attribute_source_def)
next
  fix x assume e: "FineModeFraction_500nm row = Some x"
  { assume "0.6 < x"
    with attribute_source_Some [OF e]
    show "attribute_source row = ''Combustion-dominated (urban/biomass)''" by simp }
  { assume "0.4 < x \<and> x \<le> 0.6"
    with attribute_source_Some [OF e]
    show "attribute_source row = ''Mixed (combustion + dust)''" by simp }
  { assume "x \<le> 0.4"
    with attribute_source_Some [OF e]
    show "attribute_source row = ''Dust-dominated (natural)''" by simp }
qed

text \<open>A missing fraction, 0.65, 0.55 and the boundary 0.4.\<close>

theorem attribute_source_labels_witness:
  "attribute_source (sample_row None None None None) = ''Unknown'' \<and>
   attribute_source (sample_row None None None (Some 0.65)) = ''Combustion-dominated (urban/biomass)'' \<and>
   attribute_source (sample_row None None None (Some 0.55)) = ''Mixed (combustion + dust)'' \<and>
   attribute_source (sample_row None None None (Some 0.4)) = ''Dust-dominated (natural)''"
proof -
  have eta: "FineModeFraction_500nm (sample_row None None None e) = e" for e
    by (simp add: sample_row_def)
  note t = attribute_source_labels
  have a: "attribute_source (sample_row None None None None) = ''Unknown''"
    using t [of "sample_row None None None None", THEN conjunct1] eta by (rule mp)
  have "(0.6::real) < 0.65 \<longrightarrow>
        attribute_source (sample_row None None None (Some 0.65)) = ''Combustion-dominated (urban/biomass)''"
    using t [of "sample_row None None None (Some 0.65)", THEN conjunct2, rule_format, OF eta]
    by (rule conjunct1)
  then have b: "attribute_source (sample_row None None None (Some 0.65)) = ''Combustion-dominated (urban/biomass)''"
    by simp
  have "(0.4::real) < 0.55 \<and> (0.55::real) \<le> 0.6 \<longrightarrow>
        attribute_source (sample_row None None None (Some 0.55)) = ''Mixed (combustion + dust)''"
    using t [of "sample_row None None None (Some 0.55)", THEN conjunct2, rule_format, OF eta]
    by blast
  then have c: "attribute_source (sample_row None None None (Some 0.55)) = ''Mixed (combustion + dust)''"
    by simp
  have "(0.4::real) \<le> 0.4 \<longrightarrow>
        attribute_source (sample_row None None None (Some 0.4)) = ''Dust-dominated (natural)''"
    using t [of "sample_row None None None (Some 0.4)", THEN conjunct2, rule_format, OF eta]
    by blast
  then have d: "attribute_source (sample_row None None None (Some 0.4)) = ''Dust-dominated (natural)''"
    by simp
  from a b c d show ?thesis by (intro conjI)
qed

text \<open>
  Three rows with stability and fine-mode AOD present; the third lacks the humidity
  median. In \<open>c1_full\<close> nothing is missing.
\<close>

definition c1_combo :: "combo_row list" where
  "c1_combo =
     [sample_row (Some 10) (Some 0.2) (Some 60) (Some 0.5),
      sample_row (Some 11) (Some 0.3) (Some 65) (Some 0.5),
      sample_row (Some 13) (Some 0.4) None (Some 0.5)]"

definition c1_full :: "combo_row list" where
  "c1_full =
     [sample_row (Some 10) (Some 0.2) (Some 60) (Some 0.5),
      sample_row (Some 11) (Some 0.3) (Some 65) (Some 0.5),
      sample_row (Some 13) (Some 0.4) (Some 70) (Some 0.5)]"

text \<open>
  C1, as stated, makes a pair appear exactly when three rows have both of its columns. In
  \<open>c1_combo\<close> stability and fine-mode AOD are paired in three rows, yet their
  correlation is absent: the row lacking humidity was dropped for every pair.
\<close>

theorem correlation_per_pair_counterexample:
  "\<not> (''stability_vs_fine_aod'' \<in> fst ` set (calculate_correlations (\<lambda>xs ys. (None, None)) c1_combo)
       \<longleftrightarrow>
      3 \<le> length (paired_observations theta_gradient_med Fine_Mode_AOD_500nm c1_combo))"
  by (simp add: calculate_correlations_def clean_combo_def paired_observations_def c1_combo_def
        sample_row_def del: not_None_eq)

text \<open>
  C1, amended. The rows kept are those with none of the six columns missing (stability,
  fine, coarse and total AOD, fine-mode fraction, humidity), the same rows for every pair.
  The four pairs are all present when at least three such rows remain, each computed on
  its two columns of those rows, and all absent otherwise.
\<close>

theorem correlations_all_or_none:
  "set (clean_combo combo) =
     {row \<in> set combo. theta_gradient_med row \<noteq> None \<and> Fine_Mode_AOD_500nm row \<noteq> None \<and>
        Coarse_Mode_AOD_500nm row \<noteq> None \<and> Total_AOD_500nm row \<noteq> None \<and>
        FineModeFraction_500nm row \<noteq> None \<and> rh_850_med row \<noteq> None} \<and>
   map fst (calculate_correlations pearsonr combo) =
     (if 3 \<le> length (clean_combo combo)
      then [''stability_vs_fine_aod'', ''stability_vs_coarse_aod'',
            ''stability_vs_fine_fraction'', ''humidity_vs_fine_aod'']
      else []) \<and>
   (3 \<le> length (clean_combo combo) \<longrightarrow>
      map_of (calculate_correlations pearsonr combo) ''stability_vs_fine_aod'' =
        Some (corr_entry pearsonr (column theta_gradient_med (clean_combo combo))
                (column Fine_Mode_AOD_500nm (clean_combo combo))) \<and>
      map_of (calculate_correlations pearsonr combo) ''stability_vs_coarse_aod'' =
        Some (corr_entry pearsonr (column theta_gradient_med (clean_combo combo))
                (column Coarse_Mode_AOD_500nm (clean_combo combo))) \<and>
      map_of (calculate_correlations pearsonr combo) ''stability_vs_fine_fraction'' =
        Some (corr_entry pearsonr (column theta_gradient_med (clean_combo combo))
                (column FineModeFraction_500nm (clean_combo combo))) \<and>
      map_of (calculate_correlations pearsonr combo) ''humidity_vs_fine_aod'' =
        Some (corr_entry pearsonr (column rh_850_med (clean_combo combo))
                (column Fine_Mode_AOD_500nm (clean_combo combo))))"
proof (intro conjI impI)
  show "set (clean_combo combo) =
     {row \<in> set combo. theta_gradient_med row \<noteq> None \<and> Fine_Mode_AOD_500nm row \<noteq> None \<and>
        Coarse_Mode_AOD_500nm row \<noteq> None \<and> Total_AOD_500nm row \<noteq> None \<and>
        FineModeFraction_500nm row \<noteq> None \<and> rh_850_med row \<noteq> None}"
    unfolding clean_combo_def set_filter ..
next
  show "map fst (calculate_correlations pearsonr combo) =
     (if 3 \<le> length (clean_combo combo)
      then [''stability_vs_fine_aod'', ''stability_vs_coarse_aod'',
            ''stability_vs_fine_fraction'', ''humidity_vs_fine_aod'']
      else [])"
    by (simp add: calculate_correlations_def Let_def)
next
  assume n: "3 \<le> length (clean_combo combo)"
  then have n': "2 < length (clean_combo combo)" by simp
  show "map_of (calculate_correlations pearsonr combo) ''stability_vs_fine_aod'' =
        Some (corr_entry pearsonr (column theta_gradient_med (clean_combo combo))
                (column Fine_Mode_AOD_500nm (clean_combo combo)))"
    using n' by (simp add: calculate_correlations_def Let_def)
  show "map_of (calculate_correlations pearsonr combo) ''stability_vs_coarse_aod'' =
        Some (corr_entry pearsonr (column theta_gradient_med (clean_combo combo))
                (column Coarse_Mode_AOD_500nm (clean_combo combo)))"
    using n' by (simp add: calculate_correlations_def Let_def)
  show "map_of (calculate_correlations pearsonr combo) ''stability_vs_fine_fraction'' =
        Some (corr_entry pearsonr (column theta_gradient_med (clean_combo combo))
                (column FineModeFraction_500nm (clean_combo combo)))"
    using n' by (simp add: calculate_correlations_def Let_def)
  show "map_of (calculate_correlations pearsonr combo) ''humidity_vs_fine_aod'' =
        Some (corr_entry pearsonr (column rh_850_med (clean_combo combo))
                (column Fine_Mode_AOD_500nm (clean_combo combo)))"
    using n' by (simp add: calculate_correlations_def Let_def)
qed

text \<open>Two complete rows give no entry; three give the four entries.\<close>

theorem correlations_all_or_none_witness:
  "map fst (calculate_correlations (\<lambda>xs ys. (None, None)) c1_combo) = [] \<and>
   map fst (calculate_correlations (\<lambda>xs ys. (None, None)) c1_full) =
     [''stability_vs_fine_aod'', ''stability_vs_coarse_aod'',
      ''stability_vs_fine_fraction'', ''humidity_vs_fine_aod''] \<and>
   map_of (calculate_correlations (\<lambda>xs ys. (None, None)) c1_full) ''humidity_vs_fine_aod'' =
     Some (corr_entry (\<lambda>xs ys. (None, None)) [60, 65, 70] [0.2, 0.3, 0.4])"
proof -
  have l1: "length (clean_combo c1_combo) = 2"
    by (simp add: clean_combo_def c1_combo_def sample_row_def del: not_None_eq)
  have l2: "clean_combo c1_full = c1_full"
    by (simp add: clean_combo_def c1_full_def sample_row_def del: not_None_eq)
  have c1: "column rh_850_med c1_full = [60, 65, 70]"
    by (simp add: column_def List.map_filter_def c1_full_def sample_row_def del: not_None_eq)
  have c2: "column Fine_Mode_AOD_500nm c1_full = [0.2, 0.3, 0.4]"
    by (simp add: column_def List.map_filter_def c1_full_def sample_row_def del: not_None_eq)
  have l3: "length c1_full = 3" by (simp add: c1_full_def)
  show ?thesis
    using correlations_all_or_none [of c1_combo "\<lambda>xs ys. (None, None)"]
          correlations_all_or_none [of c1_full "\<lambda>xs ys. (None, None)"]
    by (simp only: l1 l2 l3 c1 c2) simp
qed

end
